theory Spec2Isabelle
  imports Main
begin

section \<open>JavaScript string primitives used by the launch-options patcher\<close>

text \<open>
  Strings are lists of 8-bit characters. The source's strings are sequences of UTF-16 code
  units; of the four line terminators that the regular expression's \<open>.\<close> refuses, only
  line feed and carriage return are code units below 256, so only they appear here.
\<close>

fun startsWith :: "string \<Rightarrow> string \<Rightarrow> bool" where
  "startsWith s [] = True"
| "startsWith [] (p # ps) = False"
| "startsWith (c # s) (p # ps) = (c = p \<and> startsWith s ps)"

text \<open>\<open>String.prototype.includes\<close>: the argument occurs somewhere in the string.\<close>

fun includes_str :: "string \<Rightarrow> string \<Rightarrow> bool" where
  "includes_str [] sub = startsWith [] sub"
| "includes_str (c # s) sub = (startsWith (c # s) sub \<or> includes_str s sub)"

text \<open>\<open>String.prototype.indexOf\<close>: the position of the first occurrence, if any.\<close>

fun indexOf :: "string \<Rightarrow> string \<Rightarrow> nat option" where
  "indexOf [] sub = (if startsWith [] sub then Some 0 else None)"
| "indexOf (c # s) sub =
     (if startsWith (c # s) sub then Some 0 else map_option Suc (indexOf s sub))"

text \<open>
  The replacement text of \<open>String.prototype.replace\<close> with a string pattern
  (ECMAScript GetSubstitution with no captures): \<open>$$\<close> is a dollar sign, \<open>$&\<close> the
  matched text, \<open>$`\<close> the text before the match and \<open>$'\<close> the text after it; every other
  character, a dollar sign followed by anything else included, stands for itself.
\<close>

fun getSubstitution :: "string \<Rightarrow> string \<Rightarrow> string \<Rightarrow> string \<Rightarrow> string" where
  "getSubstitution matched pre post [] = []"
| "getSubstitution matched pre post [c] = [c]"
| "getSubstitution matched pre post (c # d # ds) =
     (if c = CHR ''$'' then
        (if d = CHR ''$'' then CHR ''$'' # getSubstitution matched pre post ds
         else if d = CHR ''&'' then matched @ getSubstitution matched pre post ds
         else if d = CHR 0x60 then pre @ getSubstitution matched pre post ds
         else if d = CHR 0x27 then post @ getSubstitution matched pre post ds
         else c # getSubstitution matched pre post (d # ds))
      else c # getSubstitution matched pre post (d # ds))"

text \<open>
  \<open>str.replace(pattern, replacement)\<close> with a string pattern: only the first occurrence
  is replaced, and the string is returned as it is when the pattern does not occur.
\<close>

definition replace :: "string \<Rightarrow> string \<Rightarrow> string \<Rightarrow> string" where
  "replace s pat rep =
     (case indexOf s pat of
        None \<Rightarrow> s
      | Some i \<Rightarrow>
          take i s @ getSubstitution pat (take i s) (drop (i + length pat) s) rep
            @ drop (i + length pat) s)"

section \<open>The launch-options patcher of \<open>setupSteam\<close>\<close>

definition REQUIRED :: string where
  "REQUIRED = ''msdia140.dll,xinput1_3.dll=n,b''"

definition SEP_REQUIRED :: string where
  "SEP_REQUIRED = '';msdia140.dll,xinput1_3.dll=n,b''"

definition DUPLICATED :: string where
  "DUPLICATED = ''msdia140.dll,xinput1_3.dll=n,b;msdia140.dll,xinput1_3.dll=n,b''"

text \<open>The two characters backslash, double quote that delimit the block's value.\<close>

definition BSQ :: string where
  "BSQ = [CHR 0x5C, CHR 0x22]"

definition BLOCK_OPEN :: string where
  "BLOCK_OPEN = ''WINEDLLOVERRIDES='' @ BSQ"

definition isLineTerminator :: "char \<Rightarrow> bool" where
  "isLineTerminator c = (c = CHR 0x0A \<or> c = CHR 0x0D)"

text \<open>
  The lazy group \<open>(.*?)\<close> followed by backslash, double quote: the shortest run of
  characters that are not line terminators and after which the closing delimiter stands.
\<close>

fun lazyCapture :: "string \<Rightarrow> string option" where
  "lazyCapture [] = None"
| "lazyCapture (c # s) =
     (if startsWith (c # s) BSQ then Some []
      else if isLineTerminator c then None
      else map_option ((#) c) (lazyCapture s))"

definition matchHere :: "string \<Rightarrow> string option" where
  "matchHere s =
     (if startsWith s BLOCK_OPEN then lazyCapture (drop (length BLOCK_OPEN) s) else None)"

text \<open>
  \<open>(/WINEDLLOVERRIDES=\\"(.*?)\\"/g).exec(launchOptions)\<close> on a fresh expression: the
  leftmost match. The result is the pair of the whole match (index 0 of the match array)
  and the captured group (index 1).
\<close>

fun wineDllOverridesExec :: "string \<Rightarrow> (string \<times> string) option" where
  "wineDllOverridesExec [] = None"
| "wineDllOverridesExec (c # s) =
     (case matchHere (c # s) of
        Some g \<Rightarrow> Some (BLOCK_OPEN @ g @ BSQ, g)
      | None \<Rightarrow> wineDllOverridesExec s)"

lemma startsWith_append: "startsWith (p @ r) p"
  by (induction p) auto

lemma startsWith_length: "startsWith s p \<Longrightarrow> length p \<le> length s"
  by (induction s p rule: startsWith.induct) auto

lemma includes_indexOf: "includes_str s sub \<Longrightarrow> \<exists>i. indexOf s sub = Some i"
  by (induction s) auto

lemma indexOf_bound: "indexOf s sub = Some i \<Longrightarrow> i + length sub \<le> length s"
proof (induction s arbitrary: i)
  case Nil
  then show ?case by (cases sub) (auto split: if_splits)
next
  case (Cons c s)
  show ?case
  proof (cases "startsWith (c # s) sub")
    case True
    with Cons.prems have "i = 0" by simp
    with True show ?thesis using startsWith_length by fastforce
  next
    case False
    with Cons.prems obtain j where "indexOf s sub = Some j" "i = Suc j" by auto
    with Cons.IH show ?thesis by fastforce
  qed
qed

lemma startsWith_includes: "startsWith s (p @ q) \<Longrightarrow> includes_str s q"
proof (induction p arbitrary: s)
  case Nil
  then show ?case by (cases s) auto
next
  case (Cons a p)
  then show ?case by (cases s) auto
qed

lemma includes_suffix: "includes_str s (p @ q) \<Longrightarrow> includes_str s q"
proof (induction s)
  case Nil
  then show ?case by (cases p; cases q) auto
next
  case (Cons c s)
  then show ?case using startsWith_includes [of "c # s" p q] by auto
qed

lemma replace_delete_shorter:
  assumes "includes_str s (p @ q)" and "q \<noteq> []"
  shows "length (replace s q []) < length s"
proof -
  from assms(1) have "includes_str s q" by (rule includes_suffix)
  then obtain i where i: "indexOf s q = Some i" using includes_indexOf by blast
  then have b: "i + length q \<le> length s" by (rule indexOf_bound)
  from assms(2) have "0 < length q" by simp
  with b have "min (length s) i + (length s - (i + length q)) < length s" by arith
  with i show ?thesis by (simp add: replace_def)
qed

text \<open>
  The loop of lines 84 to 86: while the value holds the required sub-value twice in a row,
  the first occurrence of the separator followed by the required sub-value is deleted.
\<close>

function deduplicate :: "string \<Rightarrow> string" where
  "deduplicate d =
     (if includes_str d DUPLICATED then deduplicate (replace d SEP_REQUIRED []) else d)"
  by pat_completeness auto
termination
proof (relation "measure length")
  show "wf (measure length)" by simp
next
  fix d :: string
  assume "includes_str d DUPLICATED"
  then have "includes_str d (REQUIRED @ SEP_REQUIRED)"
    by (simp add: DUPLICATED_def REQUIRED_def SEP_REQUIRED_def)
  then have "length (replace d SEP_REQUIRED []) < length d"
    by (rule replace_delete_shorter) (simp add: SEP_REQUIRED_def)
  then show "(replace d SEP_REQUIRED [], d) \<in> measure length" by simp
qed

declare deduplicate.simps [simp del]

text \<open>
  Lines 71 to 94 of \<open>setupSteam\<close>: the new launch options and the flag \<open>changed\<close>,
  from the current value (\<open>None\<close> is \<open>undefined\<close>; the empty string is falsy as well).
\<close>

definition DEFAULT_OPTIONS :: string where
  "DEFAULT_OPTIONS = BLOCK_OPEN @ REQUIRED @ BSQ @ '' %command%''"

definition patchLaunchOptions :: "string option \<Rightarrow> string \<times> bool" where
  "patchLaunchOptions launchOptions =
     (case launchOptions of
        None \<Rightarrow> (DEFAULT_OPTIONS, True)
      | Some lo \<Rightarrow>
          if lo = [] then (DEFAULT_OPTIONS, True)
          else
            (case wineDllOverridesExec lo of
               None \<Rightarrow> (BLOCK_OPEN @ REQUIRED @ BSQ @ '' '' @ lo, True)
             | Some (whole, grp) \<Rightarrow>
                 if \<not> includes_str grp REQUIRED then
                   (replace lo whole (BLOCK_OPEN @ grp @ SEP_REQUIRED @ BSQ), True)
                 else if includes_str grp DUPLICATED then
                   (replace lo whole (BLOCK_OPEN @ deduplicate grp @ SEP_REQUIRED @ BSQ), True)
                 else (lo, False)))"


text \<open>
  A launch-options value is conformant when it is not empty and the block, as the source
  finds it, holds the required sub-value and does not hold it twice in a row: the case in
  which none of the branches of lines 73 to 94 sets \<open>changed\<close>.
\<close>

definition conformant :: "string \<Rightarrow> bool" where
  "conformant lo =
     (lo \<noteq> [] \<and>
      (case wineDllOverridesExec lo of
         None \<Rightarrow> False
       | Some (whole, grp) \<Rightarrow> includes_str grp REQUIRED \<and> \<not> includes_str grp DUPLICATED))"

text \<open>How many positions of a string an occurrence of \<open>sub\<close> starts at.\<close>

fun occurrences :: "string \<Rightarrow> string \<Rightarrow> nat" where
  "occurrences [] sub = (if startsWith [] sub then 1 else 0)"
| "occurrences (c # s) sub = (if startsWith (c # s) sub then 1 else 0) + occurrences s sub"

lemma patchLaunchOptions_conformant:
  "conformant lo \<Longrightarrow> patchLaunchOptions (Some lo) = (lo, False)"
  by (auto simp: conformant_def patchLaunchOptions_def split: option.splits)

section \<open>Errors\<close>

datatype error =
    ModNotFoundError string string string
  | SetupError string
  | DownloadError
  | TypeError
  | ParseError
  | IOError

fun isSetupError :: "error \<Rightarrow> bool" where
  "isSetupError (SetupError m) = True"
| "isSetupError e = False"

section \<open>\<open>setupSteam\<close>: patching the launch options of every user profile\<close>

text \<open>
  The result of \<open>vdf.parse\<close> on a file's text: the call throws, or it returns a value.
  A configuration file is modelled by the value its text parses to; \<open>vdf.dump\<close> of a
  value is the text that parses back to it.
\<close>

datatype 'a parsed = ParseThrows | Parsed 'a

record app_config =
  LaunchOptions :: "string option"

text \<open>
  The node \<open>UserLocalConfigStore.Software.Valve.Steam\<close> of a user's configuration, with
  the two spellings of the key of the games. The interface \<open>UserConfig\<close> declares the
  nodes down to this one as required; a file without them makes line 64 throw, which is
  caught and logged like a file that does not parse.
\<close>

record steam_config =
  apps :: "(string \<rightharpoonup> app_config) option"
  Apps :: "(string \<rightharpoonup> app_config) option"

datatype event =
    LivenessChecked
  | Written string
  | ErrorLogged error
  | MessageLogged string

text \<open>
  What \<open>setupSteam\<close> reads and changes: the names under \<open>userdata\<close> (\<open>None\<close> when
  \<open>readdirSync\<close> throws), each user's \<open>localconfig.vdf\<close> (\<open>None\<close> when the file cannot
  be read), the answer of \<open>isRunning('steam')\<close>, the users whose file cannot be written,
  and the trace of the liveness checks, writes and logged errors so far.
\<close>

record steam_world =
  userdata :: "string list option"
  localconfig :: "string \<Rightarrow> steam_config parsed option"
  steamRunning :: bool
  writeFails :: "string \<Rightarrow> bool"
  trace :: "event list"

definition SETUP_ERROR_MESSAGE :: string where
  "SETUP_ERROR_MESSAGE = ''Could not set the WINEDLLOVERRIDES launch options because Steam is currently running. Please close Steam and retry.''"

definition APPS_KEY_NOT_FOUND :: string where
  "APPS_KEY_NOT_FOUND = ''Apps key not found in steam user config file''"

definition GAME_ID :: string where
  "GAME_ID = ''526870''"

definition logError :: "error \<Rightarrow> steam_world \<Rightarrow> steam_world" where
  "logError e w = w\<lparr>trace := trace w @ [ErrorLogged e]\<rparr>"

text \<open>
  Lines 64 to 70: the configuration after \<open>apps\<close> has been given the value of \<open>Apps\<close>
  when it had none, with the table of games; \<open>None\<close> when both keys are missing.
\<close>

definition unifyApps :: "steam_config \<Rightarrow> (steam_config \<times> (string \<rightharpoonup> app_config)) option" where
  "unifyApps cfg =
     (case apps cfg of
        Some a \<Rightarrow> Some (cfg, a)
      | None \<Rightarrow>
          (case Apps cfg of
             None \<Rightarrow> None
           | Some A \<Rightarrow> Some (cfg\<lparr>apps := Some A\<rparr>, A)))"

text \<open>
  Line 100: the assignment to \<open>apps['526870'].LaunchOptions\<close>. After line 69 the two keys
  hold the same object, so the assignment shows under both; otherwise only under \<open>apps\<close>.
\<close>

definition setLaunchOptions :: "steam_config \<Rightarrow> string \<Rightarrow> steam_config" where
  "setLaunchOptions cfg lo =
     (let upd = (\<lambda>t. case t GAME_ID of
                        None \<Rightarrow> t
                      | Some app \<Rightarrow> t(GAME_ID \<mapsto> app\<lparr>LaunchOptions := Some lo\<rparr>))
      in case apps cfg of
           Some a \<Rightarrow> cfg\<lparr>apps := Some (upd a)\<rparr>
         | None \<Rightarrow>
             (case Apps cfg of
                None \<Rightarrow> cfg
              | Some A \<Rightarrow> cfg\<lparr>apps := Some (upd A), Apps := Some (upd A)\<rparr>))"

text \<open>
  The callback of line 60 for one user. An error other than \<open>SetupError\<close> is caught at
  line 103 and logged; \<open>SetupError\<close> is thrown again and is the callback's result.
\<close>

definition setupSteamUser :: "string \<Rightarrow> steam_world \<Rightarrow> (error + unit) \<times> steam_world" where
  "setupSteamUser user w =
     (case localconfig w user of
        None \<Rightarrow> (Inr (), logError IOError w)
      | Some ParseThrows \<Rightarrow> (Inr (), logError ParseError w)
      | Some (Parsed cfg) \<Rightarrow>
          (case unifyApps cfg of
             None \<Rightarrow> (Inr (), w\<lparr>trace := trace w @ [MessageLogged APPS_KEY_NOT_FOUND]\<rparr>)
           | Some (cfg1, table) \<Rightarrow>
               (case table GAME_ID of
                  None \<Rightarrow> (Inr (), logError TypeError w)
                | Some app \<Rightarrow>
                    (case patchLaunchOptions (LaunchOptions app) of
                       (launchOptions, changed) \<Rightarrow>
                         if changed then
                           (let w1 = w\<lparr>trace := trace w @ [LivenessChecked]\<rparr> in
                            if steamRunning w1 then (Inl (SetupError SETUP_ERROR_MESSAGE), w1)
                            else if writeFails w1 user then (Inr (), logError IOError w1)
                            else
                              (Inr (),
                               w1\<lparr>localconfig :=
                                     (localconfig w1)
                                       (user \<mapsto> Parsed (setLaunchOptions cfg launchOptions)),
                                   trace := trace w1 @ [Written user]\<rparr>))
                         else (Inr (), w)))))"

text \<open>
  Modelled from the spec: \<open>forEachAsync\<close>, an extension of the arrays defined outside the
  files at hand. The patch is applied per user profile; the callback is awaited on each
  element in turn, and a rejection ends the iteration and is its result.
\<close>

fun forEachAsync :: "string list \<Rightarrow> steam_world \<Rightarrow> (error + unit) \<times> steam_world" where
  "forEachAsync [] w = (Inr (), w)"
| "forEachAsync (user # users) w =
     (case setupSteamUser user w of
        (Inl e, w') \<Rightarrow> (Inl e, w')
      | (Inr u, w') \<Rightarrow> forEachAsync users w')"

definition setupSteam :: "steam_world \<Rightarrow> (error + unit) \<times> steam_world" where
  "setupSteam w =
     (case userdata w of
        None \<Rightarrow> (Inl IOError, w)
      | Some users \<Rightarrow> forEachAsync users w)"



text \<open>
  The change that the callback has to write for a user, if any: the configuration read and
  the new launch options, when the file parses, holds the game's entry and lines 73 to 94
  set \<open>changed\<close>.
\<close>

definition changePlanned :: "steam_world \<Rightarrow> string \<Rightarrow> (steam_config \<times> string) option" where
  "changePlanned w user =
     (case localconfig w user of
        Some (Parsed cfg) \<Rightarrow>
          (case unifyApps cfg of
             Some (cfg1, table) \<Rightarrow>
               (case table GAME_ID of
                  Some app \<Rightarrow>
                    (case patchLaunchOptions (LaunchOptions app) of
                       (lo, changed) \<Rightarrow> if changed then Some (cfg, lo) else None)
                | None \<Rightarrow> None)
           | None \<Rightarrow> None)
      | _ \<Rightarrow> None)"

text \<open>A user whose file parses and holds conformant launch options for the game.\<close>

definition profileConformant :: "steam_world \<Rightarrow> string \<Rightarrow> bool" where
  "profileConformant w user =
     (case localconfig w user of
        Some (Parsed cfg) \<Rightarrow>
          (case unifyApps cfg of
             Some (cfg1, table) \<Rightarrow>
               (case table GAME_ID of
                  Some app \<Rightarrow>
                    (case LaunchOptions app of Some lo \<Rightarrow> conformant lo | None \<Rightarrow> False)
                | None \<Rightarrow> False)
           | None \<Rightarrow> False)
      | _ \<Rightarrow> False)"

lemma setupSteamUser_conformant:
  "profileConformant w user \<Longrightarrow> setupSteamUser user w = (Inr (), w)"
proof -
  assume pc: "profileConformant w user"
  then obtain cfg where cfg: "localconfig w user = Some (Parsed cfg)"
    by (cases "localconfig w user" rule: option.exhaust; cases "the (localconfig w user)")
       (auto simp: profileConformant_def)
  with pc obtain cfg1 table where un: "unifyApps cfg = Some (cfg1, table)"
    by (cases "unifyApps cfg") (auto simp: profileConformant_def)
  with pc cfg obtain app where app: "table GAME_ID = Some app"
    by (cases "table GAME_ID") (auto simp: profileConformant_def)
  with pc cfg un obtain lo where lo: "LaunchOptions app = Some lo" "conformant lo"
    by (cases "LaunchOptions app") (auto simp: profileConformant_def)
  then have "patchLaunchOptions (LaunchOptions app) = (lo, False)"
    by (simp add: patchLaunchOptions_conformant)
  with cfg un app show ?thesis by (simp add: setupSteamUser_def)
qed

lemma forEachAsync_conformant:
  "list_all (profileConformant w) users \<Longrightarrow> forEachAsync users w = (Inr (), w)"
  by (induction users) (auto simp: setupSteamUser_conformant)


lemma setupSteamUser_running:
  "changePlanned w user = Some (cfg, lo) \<Longrightarrow> steamRunning w \<Longrightarrow>
   setupSteamUser user w = (Inl (SetupError SETUP_ERROR_MESSAGE), w\<lparr>trace := trace w @ [LivenessChecked]\<rparr>)"
  by (auto simp: changePlanned_def setupSteamUser_def Let_def split: option.splits parsed.splits if_splits prod.splits)

lemma setupSteamUser_write:
  "changePlanned w user = Some (cfg, lo) \<Longrightarrow> \<not> steamRunning w \<Longrightarrow> \<not> writeFails w user \<Longrightarrow>
   setupSteamUser user w = (Inr (), w\<lparr>localconfig := (localconfig w)(user \<mapsto> Parsed (setLaunchOptions cfg lo)),
       trace := trace w @ [LivenessChecked, Written user]\<rparr>)"
  by (auto simp: changePlanned_def setupSteamUser_def Let_def split: option.splits parsed.splits if_splits prod.splits)

lemma setupSteamUser_error:
  "setupSteamUser user w = (Inl e, w') \<Longrightarrow> e = SetupError SETUP_ERROR_MESSAGE \<and> steamRunning w \<and> localconfig w' = localconfig w \<and> changePlanned w user \<noteq> None"
  by (auto simp: changePlanned_def setupSteamUser_def Let_def logError_def split: option.splits parsed.splits if_splits prod.splits)

lemma setupSteamUser_changes:
  "localconfig (snd (setupSteamUser user w)) \<noteq> localconfig w \<Longrightarrow>
    \<not> steamRunning w \<and> trace (snd (setupSteamUser user w)) = trace w @ [LivenessChecked, Written user]"
  by (auto simp: setupSteamUser_def Let_def logError_def split: option.splits parsed.splits if_splits prod.splits)



text \<open>
  Every write in a run of events comes right after a liveness check; the flag says whether
  the event before the run is a liveness check.
\<close>

fun guardedFrom :: "bool \<Rightarrow> event list \<Rightarrow> bool" where
  "guardedFrom checked [] = True"
| "guardedFrom checked (Written user # evs) = (checked \<and> guardedFrom False evs)"
| "guardedFrom checked (LivenessChecked # evs) = guardedFrom True evs"
| "guardedFrom checked (ev # evs) = guardedFrom False evs"

definition guarded :: "event list \<Rightarrow> bool" where
  "guarded evs = guardedFrom False evs"

lemma setupSteamUser_unreadable:
  "localconfig w user = None \<Longrightarrow>
   setupSteamUser user w = (Inr (), w\<lparr>trace := trace w @ [ErrorLogged IOError]\<rparr>)"
  by (simp add: setupSteamUser_def logError_def)

lemma setupSteamUser_unparsable:
  "localconfig w user = Some ParseThrows \<Longrightarrow>
   setupSteamUser user w = (Inr (), w\<lparr>trace := trace w @ [ErrorLogged ParseError]\<rparr>)"
  by (simp add: setupSteamUser_def logError_def)

lemma setupSteamUser_no_apps:
  "localconfig w user = Some (Parsed c) \<Longrightarrow> unifyApps c = None \<Longrightarrow>
   setupSteamUser user w = (Inr (), w\<lparr>trace := trace w @ [MessageLogged APPS_KEY_NOT_FOUND]\<rparr>)"
  by (simp add: setupSteamUser_def)

lemma setupSteamUser_no_game:
  "localconfig w user = Some (Parsed c) \<Longrightarrow> unifyApps c = Some (c1, table) \<Longrightarrow>
   table GAME_ID = None \<Longrightarrow>
   setupSteamUser user w = (Inr (), w\<lparr>trace := trace w @ [ErrorLogged TypeError]\<rparr>)"
  by (simp add: setupSteamUser_def logError_def)

lemma setupSteamUser_write_fails:
  "changePlanned w user = Some (cfg, lo) \<Longrightarrow> \<not> steamRunning w \<Longrightarrow> writeFails w user \<Longrightarrow>
   setupSteamUser user w
     = (Inr (), w\<lparr>trace := trace w @ [LivenessChecked, ErrorLogged IOError]\<rparr>)"
  by (auto simp: changePlanned_def setupSteamUser_def Let_def logError_def
      split: option.splits parsed.splits if_splits prod.splits)

text \<open>The outcomes of the callback, one for each way through lines 61 to 108.\<close>

lemma setupSteamUser_outcomes:
  "(setupSteamUser user w = (Inr (), w)) \<or>
   (\<exists>e. \<not> isSetupError e \<and>
      setupSteamUser user w = (Inr (), w\<lparr>trace := trace w @ [ErrorLogged e]\<rparr>)) \<or>
   (setupSteamUser user w = (Inr (), w\<lparr>trace := trace w @ [MessageLogged APPS_KEY_NOT_FOUND]\<rparr>)) \<or>
   (\<exists>cfg lo. changePlanned w user = Some (cfg, lo) \<and> \<not> steamRunning w \<and>
      setupSteamUser user w
        = (Inr (), w\<lparr>trace := trace w @ [LivenessChecked, ErrorLogged IOError]\<rparr>)) \<or>
   (\<exists>cfg lo. changePlanned w user = Some (cfg, lo) \<and> \<not> steamRunning w \<and>
      setupSteamUser user w
        = (Inr (),
           w\<lparr>localconfig := (localconfig w)(user \<mapsto> Parsed (setLaunchOptions cfg lo)),
             trace := trace w @ [LivenessChecked, Written user]\<rparr>)) \<or>
   (\<exists>cfg lo. changePlanned w user = Some (cfg, lo) \<and> steamRunning w \<and>
      setupSteamUser user w
        = (Inl (SetupError SETUP_ERROR_MESSAGE), w\<lparr>trace := trace w @ [LivenessChecked]\<rparr>))"
proof (cases "changePlanned w user")
  case (Some p)
  obtain cfg lo where p: "p = (cfg, lo)" by (cases p)
  show ?thesis
  proof (cases "steamRunning w")
    case True
    with Some p setupSteamUser_running [of w user cfg lo] show ?thesis by auto
  next
    case False
    show ?thesis
    proof (cases "writeFails w user")
      case True
      with Some p False setupSteamUser_write_fails [of w user cfg lo] show ?thesis by auto
    next
      case wf: False
      with Some p False setupSteamUser_write [of w user cfg lo] show ?thesis by auto
    qed
  qed
next
  case None
  show ?thesis
  proof (cases "localconfig w user")
    case n: None
    then have "setupSteamUser user w = (Inr (), w\<lparr>trace := trace w @ [ErrorLogged IOError]\<rparr>)"
      by (rule setupSteamUser_unreadable)
    moreover have "\<not> isSetupError IOError" by simp
    ultimately show ?thesis by blast
  next
    case (Some f)
    show ?thesis
    proof (cases f)
      case ParseThrows
      with Some have "setupSteamUser user w = (Inr (), w\<lparr>trace := trace w @ [ErrorLogged ParseError]\<rparr>)"
        by (simp add: setupSteamUser_unparsable)
      moreover have "\<not> isSetupError ParseError" by simp
      ultimately show ?thesis by blast
    next
      case (Parsed c)
      show ?thesis
      proof (cases "unifyApps c")
        case n: None
        with Some Parsed show ?thesis by (simp add: setupSteamUser_no_apps)
      next
        case s: (Some q)
        obtain c1 table where q: "q = (c1, table)" by (cases q)
        show ?thesis
        proof (cases "table GAME_ID")
          case n: None
          with Some Parsed s q
          have "setupSteamUser user w = (Inr (), w\<lparr>trace := trace w @ [ErrorLogged TypeError]\<rparr>)"
            by (simp add: setupSteamUser_no_game)
          moreover have "\<not> isSetupError TypeError" by simp
          ultimately show ?thesis by blast
        next
          case a: (Some app)
          with None Some Parsed s q have "snd (patchLaunchOptions (LaunchOptions app)) = False"
            by (cases "patchLaunchOptions (LaunchOptions app)")
               (auto simp: changePlanned_def split: if_splits)
          with Some Parsed s q a have "setupSteamUser user w = (Inr (), w)"
            by (cases "patchLaunchOptions (LaunchOptions app)") (simp add: setupSteamUser_def)
          then show ?thesis by blast
        qed
      qed
    qed
  qed
qed

text \<open>What the callback adds to the trace, and what it leaves as it was.\<close>

lemma setupSteamUser_step:
  "\<exists>evs. trace (snd (setupSteamUser user w)) = trace w @ evs \<and> guarded evs \<and>
     (steamRunning w \<longrightarrow> (\<forall>u. Written u \<notin> set evs)) \<and>
     (\<forall>u. Written u \<in> set evs \<longrightarrow> u = user \<and> evs = [LivenessChecked, Written user])"
proof -
  consider
    (same) "setupSteamUser user w = (Inr (), w)"
  | (logged) e where "setupSteamUser user w = (Inr (), w\<lparr>trace := trace w @ [ErrorLogged e]\<rparr>)"
  | (message) "setupSteamUser user w
        = (Inr (), w\<lparr>trace := trace w @ [MessageLogged APPS_KEY_NOT_FOUND]\<rparr>)"
  | (unwritable) "\<not> steamRunning w" "setupSteamUser user w
        = (Inr (), w\<lparr>trace := trace w @ [LivenessChecked, ErrorLogged IOError]\<rparr>)"
  | (written) cfg lo where "\<not> steamRunning w" "setupSteamUser user w
        = (Inr (),
           w\<lparr>localconfig := (localconfig w)(user \<mapsto> Parsed (setLaunchOptions cfg lo)),
             trace := trace w @ [LivenessChecked, Written user]\<rparr>)"
  | (running) "steamRunning w" "setupSteamUser user w
        = (Inl (SetupError SETUP_ERROR_MESSAGE), w\<lparr>trace := trace w @ [LivenessChecked]\<rparr>)"
    using setupSteamUser_outcomes [of user w] by blast
  then show ?thesis
  proof cases
    case same
    then show ?thesis by (intro exI [of _ "[]"]) (simp add: guarded_def)
  next
    case logged
    then show ?thesis by (intro exI [of _ "[ErrorLogged e]"]) (simp add: guarded_def)
  next
    case message
    then show ?thesis
      by (intro exI [of _ "[MessageLogged APPS_KEY_NOT_FOUND]"]) (simp add: guarded_def)
  next
    case unwritable
    then show ?thesis
      by (intro exI [of _ "[LivenessChecked, ErrorLogged IOError]"]) (simp add: guarded_def)
  next
    case written
    then show ?thesis
      by (intro exI [of _ "[LivenessChecked, Written user]"]) (simp add: guarded_def)
  next
    case running
    then show ?thesis by (intro exI [of _ "[LivenessChecked]"]) (simp add: guarded_def)
  qed
qed

lemma setupSteamUser_steamRunning:
  "steamRunning (snd (setupSteamUser user w)) = steamRunning w"
  using setupSteamUser_outcomes [of user w]
  by (elim disjE exE conjE) simp_all

lemma setupSteamUser_running_frame:
  "steamRunning w \<Longrightarrow> localconfig (snd (setupSteamUser user w)) = localconfig w"
  using setupSteamUser_outcomes [of user w]
  by (elim disjE exE conjE) simp_all

lemma guardedFrom_weaken: "guardedFrom False evs \<Longrightarrow> guardedFrom checked evs"
  by (induction False evs rule: guardedFrom.induct) auto

lemma guardedFrom_append:
  "guardedFrom checked xs \<Longrightarrow> guardedFrom False ys \<Longrightarrow> guardedFrom checked (xs @ ys)"
  by (induction checked xs rule: guardedFrom.induct) (auto simp: guardedFrom_weaken)

lemma guarded_append: "guarded xs \<Longrightarrow> guarded ys \<Longrightarrow> guarded (xs @ ys)"
  by (simp add: guarded_def guardedFrom_append)

lemma forEachAsync_append:
  "forEachAsync (xs @ ys) w
     = (case forEachAsync xs w of (Inl e, w') \<Rightarrow> (Inl e, w') | (Inr u, w') \<Rightarrow> forEachAsync ys w')"
proof (induction xs arbitrary: w)
  case (Cons x xs)
  show ?case
  proof (cases "setupSteamUser x w")
    case (Pair r w1)
    with Cons show ?thesis by (cases r) simp_all
  qed
qed simp

lemma forEachAsync_trace:
  "\<exists>evs. trace (snd (forEachAsync users w)) = trace w @ evs \<and> guarded evs \<and>
     (steamRunning w \<longrightarrow> (\<forall>u. Written u \<notin> set evs))"
proof (induction users arbitrary: w)
  case Nil
  show ?case by (simp add: guarded_def)
next
  case (Cons user users)
  obtain r w1 where s: "setupSteamUser user w = (r, w1)" by force
  from setupSteamUser_step [of user w] s obtain evs where
    e: "trace w1 = trace w @ evs" "guarded evs" "steamRunning w \<longrightarrow> (\<forall>u. Written u \<notin> set evs)"
    by auto
  show ?case
  proof (cases r)
    case (Inl err)
    with s e show ?thesis by auto
  next
    case (Inr u)
    from Cons [of w1] obtain evs' where
      e': "trace (snd (forEachAsync users w1)) = trace w1 @ evs'" "guarded evs'"
        "steamRunning w1 \<longrightarrow> (\<forall>u. Written u \<notin> set evs')"
      by auto
    have r1: "steamRunning w1 = steamRunning w"
      using setupSteamUser_steamRunning [of user w] s by simp
    have "trace (snd (forEachAsync (user # users) w)) = trace w @ (evs @ evs')"
      using s Inr e e' by simp
    moreover have "guarded (evs @ evs')" using e e' by (simp add: guarded_append)
    moreover have "steamRunning w \<longrightarrow> (\<forall>u. Written u \<notin> set (evs @ evs'))"
      using e e' r1 by auto
    ultimately show ?thesis by blast
  qed
qed

lemma forEachAsync_running_frame:
  "steamRunning w \<Longrightarrow> localconfig (snd (forEachAsync users w)) = localconfig w"
proof (induction users arbitrary: w)
  case (Cons user users)
  obtain r w1 where s: "setupSteamUser user w = (r, w1)" by force
  with Cons.prems have l: "localconfig w1 = localconfig w" "steamRunning w1"
    using setupSteamUser_running_frame [of w user] setupSteamUser_steamRunning [of user w] by auto
  show ?case
  proof (cases r)
    case (Inl err)
    with s l show ?thesis by simp
  next
    case (Inr u)
    with s l Cons.IH [of w1] show ?thesis by simp
  qed
qed simp

text \<open>Line 100: the configuration that is written holds the new launch options of the game.\<close>

lemma setLaunchOptions_holds:
  "unifyApps cfg = Some (cfg1, table) \<Longrightarrow> table GAME_ID = Some app \<Longrightarrow>
   \<exists>cfg2 table2 app2. unifyApps (setLaunchOptions cfg lo) = Some (cfg2, table2) \<and>
      table2 GAME_ID = Some app2 \<and> LaunchOptions app2 = Some lo"
  by (auto simp: unifyApps_def setLaunchOptions_def Let_def split: option.splits)


lemma forEachAsync_propagates:
  assumes "forEachAsync pre w0 = (Inr (), w)" "changePlanned w user = Some (cfg, lo)" "steamRunning w"
  shows "forEachAsync (pre @ user # users) w0
    = (Inl (SetupError SETUP_ERROR_MESSAGE), w\<lparr>trace := trace w @ [LivenessChecked]\<rparr>)"
  using assms(1) setupSteamUser_running [OF assms(2,3)]
  by (simp add: forEachAsync_append)

lemma forEachAsync_continues:
  assumes "forEachAsync pre w0 = (Inr (), w)" "setupSteamUser user w = (Inr (), w')"
  shows "forEachAsync (pre @ user # users) w0 = forEachAsync users w'"
  using assms by (simp add: forEachAsync_append)

lemma changePlanned_holds:
  assumes "changePlanned w user = Some (cfg, lo)"
  shows "localconfig w user = Some (Parsed cfg) \<and>
     (\<exists>cfg1 table app. unifyApps cfg = Some (cfg1, table) \<and> table GAME_ID = Some app \<and>
        patchLaunchOptions (LaunchOptions app) = (lo, True))"
proof -
  from assms obtain c where c: "localconfig w user = Some (Parsed c)"
    by (cases "localconfig w user"; cases "the (localconfig w user)")
       (auto simp: changePlanned_def)
  with assms obtain c1 table where u: "unifyApps c = Some (c1, table)"
    by (cases "unifyApps c") (auto simp: changePlanned_def)
  with assms c obtain app where a: "table GAME_ID = Some app"
    by (cases "table GAME_ID") (auto simp: changePlanned_def)
  with assms c u have "c = cfg \<and> patchLaunchOptions (LaunchOptions app) = (lo, True)"
    by (cases "patchLaunchOptions (LaunchOptions app)")
       (auto simp: changePlanned_def split: if_splits)
  with c u a show ?thesis by blast
qed

lemma setupSteamUser_returns:
  assumes "setupSteamUser user w = (Inr (), w')"
  shows "w' = w \<or>
     (\<exists>x. \<not> isSetupError x \<and> w' = w\<lparr>trace := trace w @ [ErrorLogged x]\<rparr>) \<or>
     w' = w\<lparr>trace := trace w @ [MessageLogged APPS_KEY_NOT_FOUND]\<rparr> \<or>
     w' = w\<lparr>trace := trace w @ [LivenessChecked, ErrorLogged IOError]\<rparr> \<or>
     (\<exists>c l. changePlanned w user = Some (c, l) \<and>
        w' = w\<lparr>localconfig := (localconfig w)(user \<mapsto> Parsed (setLaunchOptions c l)),
               trace := trace w @ [LivenessChecked, Written user]\<rparr>)"
proof -
  consider
    (same) "setupSteamUser user w = (Inr (), w)"
  | (logged) x where "\<not> isSetupError x"
      "setupSteamUser user w = (Inr (), w\<lparr>trace := trace w @ [ErrorLogged x]\<rparr>)"
  | (message) "setupSteamUser user w
        = (Inr (), w\<lparr>trace := trace w @ [MessageLogged APPS_KEY_NOT_FOUND]\<rparr>)"
  | (unwritable) "setupSteamUser user w
        = (Inr (), w\<lparr>trace := trace w @ [LivenessChecked, ErrorLogged IOError]\<rparr>)"
  | (written) c l where "changePlanned w user = Some (c, l)" "setupSteamUser user w
        = (Inr (),
           w\<lparr>localconfig := (localconfig w)(user \<mapsto> Parsed (setLaunchOptions c l)),
             trace := trace w @ [LivenessChecked, Written user]\<rparr>)"
  | (running) "setupSteamUser user w
        = (Inl (SetupError SETUP_ERROR_MESSAGE), w\<lparr>trace := trace w @ [LivenessChecked]\<rparr>)"
    using setupSteamUser_outcomes [of user w] by blast
  then show ?thesis
  proof cases
    case same
    with assms have "w' = w" by simp
    then show ?thesis by blast
  next
    case logged
    with assms have "w' = w\<lparr>trace := trace w @ [ErrorLogged x]\<rparr>" by simp
    with logged(1) show ?thesis by blast
  next
    case message
    with assms have "w' = w\<lparr>trace := trace w @ [MessageLogged APPS_KEY_NOT_FOUND]\<rparr>" by simp
    then show ?thesis by blast
  next
    case unwritable
    with assms have "w' = w\<lparr>trace := trace w @ [LivenessChecked, ErrorLogged IOError]\<rparr>" by simp
    then show ?thesis by blast
  next
    case written
    with assms have "w' = w\<lparr>localconfig := (localconfig w)(user \<mapsto> Parsed (setLaunchOptions c l)),
               trace := trace w @ [LivenessChecked, Written user]\<rparr>" by simp
    with written(1) show ?thesis by blast
  next
    case running
    with assms show ?thesis by simp
  qed
qed

lemma setupSteamUser_written:
  assumes "trace (snd (setupSteamUser user w)) = trace w @ evs" "Written u \<in> set evs"
  shows "\<not> steamRunning w \<and> u = user \<and> evs = [LivenessChecked, Written user]"
proof -
  from setupSteamUser_step [of user w] obtain evs0 where
    e: "trace (snd (setupSteamUser user w)) = trace w @ evs0"
      "steamRunning w \<longrightarrow> (\<forall>u. Written u \<notin> set evs0)"
      "\<forall>u. Written u \<in> set evs0 \<longrightarrow> u = user \<and> evs0 = [LivenessChecked, Written user]"
    by blast
  with assms(1) have "evs0 = evs" by simp
  with e assms(2) show ?thesis by blast
qed


section \<open>\<open>getInstalls\<close>: discovery of the installs under the Steam library folders\<close>

text \<open>
  A path is the list of its components: \<open>path.join(a, 'b', 'c')\<close> is \<open>a @ [''b'', ''c'']\<close>.
  The normalisation that \<open>path.join\<close> applies to the text of a path is not part of the
  model.
\<close>

type_synonym path = "string list"

record app_user_config =
  betakey :: "string option"

record app_state =
  name :: string
  installdir :: string
  UserConfig :: app_user_config

record steam_manifest =
  AppState :: "app_state option"

text \<open>
  The arguments of the constructor of \<open>SatisfactoryInstall\<close>, in their order; the last
  one, the setup action, is \<open>setupSteam\<close> for every install found here.
\<close>

record satisfactory_install =
  installName :: string
  installVersion :: string
  installBranch :: string
  installLocation :: path
  launchPath :: string

record install_find_result =
  installs :: "satisfactory_install list"
  invalidInstalls :: "path list"

text \<open>
  What \<open>getInstalls\<close> reads: the home directory, \<open>fs.existsSync\<close>, the entries of the
  key \<open>LibraryFolders\<close> of \<open>libraryfolders.vdf\<close> as \<open>Object.entries\<close> lists them (the outer
  \<open>None\<close>: the file cannot be read; the inner one: the key is missing), the value that
  reading and parsing an app manifest gives (\<open>ParseThrows\<close> when either throws, \<open>None\<close>
  for a falsy value), and the tag \<open>ProductVersion\<close> that exiftool reads from an executable
  (\<open>None\<close> when the read fails or the tag is missing).
\<close>

record install_world =
  home :: path
  existing :: "path \<Rightarrow> bool"
  libraryfolders :: "(string \<times> path) list option parsed option"
  manifests :: "path \<Rightarrow> steam_manifest option parsed"
  productVersion :: "path \<Rightarrow> string option"

definition STEAM_DATA_LOCATION :: "install_world \<Rightarrow> path" where
  "STEAM_DATA_LOCATION w = home w @ [''.var'', ''app'', ''com.valvesoftware.Steam'', ''.steam'', ''steam'']"

definition GAME_EXE :: path where
  "GAME_EXE = [''FactoryGame'', ''Binaries'', ''Win64'', ''FactoryGame-Win64-Shipping.exe'']"

definition APP_MANIFEST :: path where
  "APP_MANIFEST = [''steamapps'', ''appmanifest_526870.acf'']"

definition LAUNCH_PATH :: string where
  "LAUNCH_PATH = ''flatpak run com.valvesoftware.Steam steam://rungameid/526870''"

definition isDigit :: "char \<Rightarrow> bool" where
  "isDigit c = (48 \<le> (of_char c :: nat) \<and> (of_char c :: nat) \<le> 57)"

text \<open>The test \<open>/^\d+$/\<close> of line 119.\<close>

definition isNumericKey :: "string \<Rightarrow> bool" where
  "isNumericKey k = (k \<noteq> [] \<and> list_all isDigit k)"

text \<open>\<open>toLowerCase\<close> on the letters A to Z; the other characters are kept.\<close>

definition toLowerCase :: "string \<Rightarrow> string" where
  "toLowerCase s =
     map (\<lambda>c. if 65 \<le> (of_char c :: nat) \<and> (of_char c :: nat) \<le> 90
              then char_of (of_char c + (32 :: nat)) else c) s"

text \<open>
  The group of the leftmost match of \<open>/CL-(?<version>\d+)/\<close>: the longest run of digits
  after the first \<open>CL-\<close> that a digit follows.
\<close>

fun clVersion :: "string \<Rightarrow> string option" where
  "clVersion [] = None"
| "clVersion (c # s) =
     (if startsWith (c # s) ''CL-'' \<and> takeWhile isDigit (drop 3 (c # s)) \<noteq> []
      then Some (takeWhile isDigit (drop 3 (c # s)))
      else clVersion s)"

definition getGameVersionFromExe :: "install_world \<Rightarrow> path \<Rightarrow> error + string" where
  "getGameVersionFromExe w exePath =
     (case productVersion w exePath of
        None \<Rightarrow> Inl TypeError
      | Some pv \<Rightarrow>
          Inr (case clVersion pv of
                 None \<Rightarrow> ''0''
               | Some v \<Rightarrow> if v = [] then ''0'' else v))"

text \<open>
  The callback of line 121 runs without interruption up to its first \<open>await\<close>, at line
  135. This is what it has done by then: found no manifest; found a manifest without
  \<open>AppState\<close> (logged, line 126); pushed the install path on \<open>invalidInstalls\<close> (line 132);
  thrown, so that its promise is rejected; or reached the read of the game version, with the
  install path, the manifest's \<open>AppState\<close> and the path of the executable.
\<close>

datatype root_outcome =
    NoManifest
  | InvalidManifest path
  | MissingExecutable path
  | Rejected error
  | Awaiting path app_state path

definition probeRoot :: "install_world \<Rightarrow> path \<Rightarrow> root_outcome" where
  "probeRoot w libraryFolder =
     (let sfManifestPath = libraryFolder @ APP_MANIFEST in
      if existing w sfManifestPath then
        (case manifests w sfManifestPath of
           ParseThrows \<Rightarrow> Rejected ParseError
         | Parsed None \<Rightarrow> InvalidManifest sfManifestPath
         | Parsed (Some manifest) \<Rightarrow>
             (case AppState manifest of
                None \<Rightarrow> InvalidManifest sfManifestPath
              | Some st \<Rightarrow>
                  (let fullInstallPath = libraryFolder @ [''steamapps'', ''common'', installdir st];
                       gameExe = fullInstallPath @ GAME_EXE
                   in if \<not> existing w gameExe then MissingExecutable fullInstallPath
                      else Awaiting fullInstallPath st gameExe)))
      else NoManifest)"

text \<open>Lines 135 to 143: the rest of the callback, once the read of the version is over.\<close>

definition finishRoot :: "install_world \<Rightarrow> path \<Rightarrow> app_state \<Rightarrow> path \<Rightarrow> error + satisfactory_install" where
  "finishRoot w fullInstallPath st gameExe =
     (case getGameVersionFromExe w gameExe of
        Inl e \<Rightarrow> Inl e
      | Inr gameVersion \<Rightarrow>
          Inr \<lparr>installName =
                 name st @ '' ''
                   @ (if map_option toLowerCase (betakey (UserConfig st)) = Some ''experimental''
                      then ''Experimental'' else ''Early Access'')
                   @ '' (Steam)'',
               installVersion = gameVersion,
               installBranch =
                 (case betakey (UserConfig st) of
                    None \<Rightarrow> ''EA''
                  | Some k \<Rightarrow> if k = [] then ''EA'' else k),
               installLocation = fullInstallPath,
               launchPath = LAUNCH_PATH\<rparr>)"

fun invalidOf :: "root_outcome \<Rightarrow> path list" where
  "invalidOf (MissingExecutable p) = [p]"
| "invalidOf out = []"

text \<open>The error of the first callback that has thrown, if any.\<close>

fun firstRejection :: "root_outcome list \<Rightarrow> error option" where
  "firstRejection [] = None"
| "firstRejection (Rejected e # outs) = Some e"
| "firstRejection (out # outs) = firstRejection outs"

fun messageOf :: "root_outcome \<Rightarrow> event list" where
  "messageOf (InvalidManifest p) = [MessageLogged ''Invalid steam manifest'']"
| "messageOf out = []"

text \<open>
  The callbacks that wait for a version, resumed one after the other. The source does not
  fix the order in which the reads end; here it is the order of the roots. A callback
  that fails rejects \<open>Promise.all\<close>: the installs pushed so far are those of the result.
\<close>

fun resumeRoots :: "install_world \<Rightarrow> root_outcome list \<Rightarrow> satisfactory_install list
    \<Rightarrow> satisfactory_install list \<times> error list" where
  "resumeRoots w [] acc = (acc, [])"
| "resumeRoots w (Awaiting p st exe # outs) acc =
     (case finishRoot w p st exe of
        Inl e \<Rightarrow> (acc, [e])
      | Inr i \<Rightarrow> resumeRoots w outs (acc @ [i]))"
| "resumeRoots w (out # outs) acc = resumeRoots w outs acc"

text \<open>
  Lines 121 to 148 on the list of library folders. \<open>Array.map\<close> runs every callback up to
  its first \<open>await\<close> before \<open>Promise.all\<close> is awaited. When one of them has thrown by
  then, \<open>Promise.all\<close> is rejected and line 147 is reached before any read of a version has
  ended: the arrays are returned with what the callbacks have pushed so far. Otherwise the
  waiting callbacks are resumed.
\<close>

definition settleRoots :: "install_world \<Rightarrow> root_outcome list \<Rightarrow> install_find_result \<times> event list" where
  "settleRoots w outcomes =
     (let invalid = concat (map invalidOf outcomes);
          messages = concat (map messageOf outcomes)
      in case firstRejection outcomes of
           Some e \<Rightarrow> (\<lparr>installs = [], invalidInstalls = invalid\<rparr>, messages @ [ErrorLogged e])
         | None \<Rightarrow>
             (case resumeRoots w outcomes [] of
                (found, errs) \<Rightarrow>
                  (\<lparr>installs = found, invalidInstalls = invalid\<rparr>,
                   messages @ map ErrorLogged errs)))"

definition processRoots :: "install_world \<Rightarrow> path list \<Rightarrow> install_find_result \<times> event list" where
  "processRoots w roots = settleRoots w (map (probeRoot w) roots)"

text \<open>Line 119 and 120: the library folders, the Steam data location last.\<close>

definition libraryRoots :: "install_world \<Rightarrow> (string \<times> path) list \<Rightarrow> path list" where
  "libraryRoots w entries =
     map snd (filter (\<lambda>entry. isNumericKey (fst entry)) entries) @ [STEAM_DATA_LOCATION w]"

definition getInstalls :: "install_world \<Rightarrow> install_find_result \<times> event list" where
  "getInstalls w =
     (if existing w (STEAM_DATA_LOCATION w @ [''steamapps'']) then
        (case libraryfolders w of
           None \<Rightarrow> (\<lparr>installs = [], invalidInstalls = []\<rparr>, [ErrorLogged IOError])
         | Some ParseThrows \<Rightarrow> (\<lparr>installs = [], invalidInstalls = []\<rparr>, [ErrorLogged ParseError])
         | Some (Parsed None) \<Rightarrow> (\<lparr>installs = [], invalidInstalls = []\<rparr>, [ErrorLogged TypeError])
         | Some (Parsed (Some entries)) \<Rightarrow> processRoots w (libraryRoots w entries))
      else (\<lparr>installs = [], invalidInstalls = []\<rparr>, [MessageLogged ''Steam-flatpak is not installed'']))"



lemma settleRoots_rejected:
  "firstRejection outs = Some e \<Longrightarrow>
   settleRoots w outs
     = (\<lparr>installs = [], invalidInstalls = concat (map invalidOf outs)\<rparr>,
        concat (map messageOf outs) @ [ErrorLogged e])"
  by (simp add: settleRoots_def)

lemma settleRoots_resumed:
  "firstRejection outs = None \<Longrightarrow> resumeRoots w outs [] = (found, errs) \<Longrightarrow>
   settleRoots w outs
     = (\<lparr>installs = found, invalidInstalls = concat (map invalidOf outs)\<rparr>,
        concat (map messageOf outs) @ map ErrorLogged errs)"
  by (simp add: settleRoots_def)

lemma invalidInstalls_settleRoots:
  "invalidInstalls (fst (settleRoots w outs)) = concat (map invalidOf outs)"
proof (cases "firstRejection outs")
  case None
  obtain found errs where "resumeRoots w outs [] = (found, errs)" by force
  with None show ?thesis by (simp add: settleRoots_resumed)
next
  case (Some e)
  then show ?thesis by (simp add: settleRoots_rejected)
qed

lemma probeRoot_Awaiting:
  "probeRoot w r = Awaiting p st exe \<Longrightarrow> exe = p @ GAME_EXE \<and> existing w exe"
  by (auto simp: probeRoot_def Let_def split: if_splits parsed.splits option.splits)

lemma finishRoot_location:
  "finishRoot w p st exe = Inr i \<Longrightarrow> installLocation i = p"
  by (auto simp: finishRoot_def split: sum.splits)

text \<open>A callback that waits for a version has found the executable of its install path.\<close>

fun executableFound :: "install_world \<Rightarrow> root_outcome \<Rightarrow> bool" where
  "executableFound w (Awaiting p st exe) = existing w (p @ GAME_EXE)"
| "executableFound w out = True"

lemma executableFound_probeRoot: "executableFound w (probeRoot w r)"
  by (cases "probeRoot w r") (auto dest: probeRoot_Awaiting)

lemma resumeRoots_existing:
  "list_all (executableFound w) outs \<Longrightarrow>
   list_all (\<lambda>i. existing w (installLocation i @ GAME_EXE)) acc \<Longrightarrow>
   list_all (\<lambda>i. existing w (installLocation i @ GAME_EXE)) (fst (resumeRoots w outs acc))"
proof (induction w outs acc rule: resumeRoots.induct)
  case (2 w p st exe outs acc)
  then show ?case by (auto split: sum.splits dest: finishRoot_location)
qed auto

lemma installs_settleRoots_existing:
  assumes "list_all (executableFound w) outs"
  shows "list_all (\<lambda>i. existing w (installLocation i @ GAME_EXE)) (installs (fst (settleRoots w outs)))"
proof (cases "firstRejection outs")
  case None
  obtain found errs where r: "resumeRoots w outs [] = (found, errs)" by force
  from resumeRoots_existing [OF assms, of "[]"] r
  have "list_all (\<lambda>i. existing w (installLocation i @ GAME_EXE)) found" by simp
  with None r show ?thesis by (simp add: settleRoots_resumed)
next
  case (Some e)
  then show ?thesis by (simp add: settleRoots_rejected)
qed

lemma installs_processRoots_existing:
  "list_all (\<lambda>i. existing w (installLocation i @ GAME_EXE)) (installs (fst (processRoots w roots)))"
  unfolding processRoots_def
  by (rule installs_settleRoots_existing) (simp add: list_all_iff executableFound_probeRoot)

lemma resumeRoots_skip:
  "\<forall>p st exe. out \<noteq> Awaiting p st exe \<Longrightarrow>
   resumeRoots w (as @ out # bs) acc = resumeRoots w (as @ bs) acc"
proof (induction w as acc rule: resumeRoots.induct)
  case (1 w acc)
  then show ?case by (cases out) auto
next
  case (2 w p st exe outs acc)
  then show ?case by (auto split: sum.splits)
qed auto

lemma firstRejection_skip:
  "\<forall>e. out \<noteq> Rejected e \<Longrightarrow> firstRejection (as @ out # bs) = firstRejection (as @ bs)"
proof (induction as rule: firstRejection.induct)
  case 1
  then show ?case by (cases out) auto
qed auto

lemma settleRoots_NoManifest:
  "settleRoots w (as @ NoManifest # bs) = settleRoots w (as @ bs)"
proof -
  have "resumeRoots w (as @ NoManifest # bs) [] = resumeRoots w (as @ bs) []"
    by (rule resumeRoots_skip) simp
  moreover have "firstRejection (as @ NoManifest # bs) = firstRejection (as @ bs)"
    by (rule firstRejection_skip) simp
  ultimately show ?thesis by (simp add: settleRoots_def Let_def split: option.split)
qed

lemma processRoots_NoManifest:
  "probeRoot w r = NoManifest \<Longrightarrow> processRoots w (xs @ r # ys) = processRoots w (xs @ ys)"
  by (simp add: processRoots_def settleRoots_NoManifest)

text \<open>The install that a callback pushes when the read of its version succeeds.\<close>

fun installOf :: "install_world \<Rightarrow> root_outcome \<Rightarrow> satisfactory_install list" where
  "installOf w (Awaiting p st exe) = (case finishRoot w p st exe of Inl e \<Rightarrow> [] | Inr i \<Rightarrow> [i])"
| "installOf w out = []"

text \<open>A callback that neither throws before its first \<open>await\<close> nor fails after it.\<close>

fun healthy :: "install_world \<Rightarrow> root_outcome \<Rightarrow> bool" where
  "healthy w (Awaiting p st exe) = (case finishRoot w p st exe of Inl e \<Rightarrow> False | Inr i \<Rightarrow> True)"
| "healthy w (Rejected e) = False"
| "healthy w out = True"

lemma resumeRoots_healthy:
  "list_all (healthy w) outs \<Longrightarrow>
   resumeRoots w outs acc = (acc @ concat (map (installOf w) outs), [])"
  by (induction w outs acc rule: resumeRoots.induct) (auto split: sum.splits)

lemma rejection_healthy: "list_all (healthy w) outs \<Longrightarrow> firstRejection outs = None"
  by (induction outs rule: firstRejection.induct) auto

lemma settleRoots_healthy:
  assumes "list_all (healthy w) outs"
  shows "settleRoots w outs
     = (\<lparr>installs = concat (map (installOf w) outs), invalidInstalls = concat (map invalidOf outs)\<rparr>,
        concat (map messageOf outs))"
  using settleRoots_resumed [OF rejection_healthy [OF assms],
      of w "concat (map (installOf w) outs)" "[]"] resumeRoots_healthy [OF assms, of "[]"]
  by simp

lemma settleRoots_Rejected:
  assumes "Rejected e \<in> set outs"
  shows "\<exists>e'. settleRoots w outs
     = (\<lparr>installs = [], invalidInstalls = concat (map invalidOf outs)\<rparr>,
        concat (map messageOf outs) @ [ErrorLogged e'])"
proof -
  from assms have "\<exists>e'. firstRejection outs = Some e'"
    by (induction outs rule: firstRejection.induct) auto
  then obtain e' where "firstRejection outs = Some e'" by blast
  then show ?thesis using settleRoots_rejected by blast
qed


text \<open>
  \<open>getInstalls\<close> reaches line 121: the directory \<open>steamapps\<close> exists and
  \<open>libraryfolders.vdf\<close> parses to a value with the key \<open>LibraryFolders\<close>.
\<close>

definition reachesRoots :: "install_world \<Rightarrow> (string \<times> path) list \<Rightarrow> bool" where
  "reachesRoots w entries =
     (existing w (STEAM_DATA_LOCATION w @ [''steamapps'']) \<and>
      libraryfolders w = Some (Parsed (Some entries)))"

lemma getInstalls_reachesRoots:
  "reachesRoots w entries \<Longrightarrow> getInstalls w = processRoots w (libraryRoots w entries)"
  by (simp add: reachesRoots_def getInstalls_def)

section \<open>Example library folders\<close>

definition exampleHome :: path where
  "exampleHome = [''home'', ''user'']"

definition exampleLibrary :: path where
  "exampleLibrary = [''mnt'', ''games'']"

definition emptyLibrary :: path where
  "emptyLibrary = [''mnt'', ''empty'']"

definition exampleState :: app_state where
  "exampleState = \<lparr>name = ''Satisfactory'', installdir = ''Satisfactory'', UserConfig = \<lparr>betakey = None\<rparr>\<rparr>"

definition exampleInstall :: "path \<Rightarrow> satisfactory_install" where
  "exampleInstall root =
     \<lparr>installName = ''Satisfactory Early Access (Steam)'',
      installVersion = ''123456'',
      installBranch = ''EA'',
      installLocation = root @ [''steamapps'', ''common'', ''Satisfactory''],
      launchPath = LAUNCH_PATH\<rparr>"

text \<open>
  Three library folders: \<open>/mnt/games\<close> with the given manifest and, if the flag says so,
  the executable; \<open>/mnt/empty\<close> with no manifest; and the Steam data location with a valid
  manifest and the executable.
\<close>

definition discoveryWorld :: "steam_manifest option parsed \<Rightarrow> bool \<Rightarrow> install_world" where
  "discoveryWorld libraryManifest libraryExe =
     \<lparr>home = exampleHome,
      existing = (\<lambda>p.
         p = exampleHome @ [''.var'', ''app'', ''com.valvesoftware.Steam'', ''.steam'', ''steam'', ''steamapps''] \<or>
         p = exampleHome @ [''.var'', ''app'', ''com.valvesoftware.Steam'', ''.steam'', ''steam''] @ APP_MANIFEST \<or>
         p = exampleHome @ [''.var'', ''app'', ''com.valvesoftware.Steam'', ''.steam'', ''steam'',
                ''steamapps'', ''common'', ''Satisfactory''] @ GAME_EXE \<or>
         p = exampleLibrary @ APP_MANIFEST \<or>
         (libraryExe \<and> p = exampleLibrary @ [''steamapps'', ''common'', ''Satisfactory''] @ GAME_EXE)),
      libraryfolders =
        Some (Parsed (Some [(''1'', exampleLibrary), (''2'', emptyLibrary), (''ContentStatsID'', [''0''])])),
      manifests = (\<lambda>p. if p = exampleLibrary @ APP_MANIFEST then libraryManifest
                       else Parsed (Some \<lparr>AppState = Some exampleState\<rparr>)),
      productVersion = (\<lambda>p. Some ''++FactoryGame+rel-main-CL-123456'')\<rparr>"


section \<open>The cache of SML versions and the installer\<close>

datatype node = File string | Dir

datatype request = VersionInfo string | Download string

text \<open>
  What the installer reads and changes: the file system (a file with its content, or a
  directory, at a path), what a download of a URL gives (\<open>None\<close> when it fails), the link
  of the release that \<open>getSMLVersionInfo\<close> finds for a version, the version string that
  the native reader finds in a file's content, the result of semver's
  \<open>valid(coerce(version))\<close> (\<open>None\<close> for \<open>null\<close>), the cache directory \<open>smlCacheDir\<close>, and
  the trace of the network calls made so far.
\<close>

record sml_world =
  fs :: "path \<Rightarrow> node option"
  network :: "string \<Rightarrow> string option"
  releases :: "string \<Rightarrow> string option"
  embeddedVersion :: "string \<Rightarrow> string option"
  semver :: "string \<Rightarrow> string option"
  smlCacheDir :: path
  requests :: "request list"

definition SMLDLLFileName :: string where
  "SMLDLLFileName = ''UE4-SML-Win64-Shipping.dll''"

definition SMLPakFileName :: string where
  "SMLPakFileName = ''SML.pak''"

definition SMLDLLRelativePath :: path where
  "SMLDLLRelativePath = [''loaders'', SMLDLLFileName]"

definition SMLPakRelativePath :: path where
  "SMLPakRelativePath = [''loaders'', SMLPakFileName]"

text \<open>A value of type \<open>string | undefined\<close> is truthy when it is a string that is not empty.\<close>

definition truthy :: "string option \<Rightarrow> bool" where
  "truthy v = (case v of None \<Rightarrow> False | Some s \<Rightarrow> s \<noteq> [])"

definition existsSync :: "sml_world \<Rightarrow> path \<Rightarrow> bool" where
  "existsSync w p = (fs w p \<noteq> None)"

text \<open>\<open>path.dirname\<close>: the path without its last component.\<close>

definition dirname :: "path \<Rightarrow> path" where
  "dirname p = butlast p"

text \<open>
  Modelled from the spec: \<open>ensureExists\<close> of the module \<open>paths\<close>, which is not among the
  files at hand. The directory is created if it is missing. The directories above it are
  not tracked by the model.
\<close>

definition ensureExists :: "path \<Rightarrow> sml_world \<Rightarrow> sml_world" where
  "ensureExists p w = (if fs w p = None then w\<lparr>fs := (fs w)(p \<mapsto> Dir)\<rparr> else w)"

text \<open>\<open>fs.copyFileSync\<close>: the source has to be a file, the destination must not be a directory.\<close>

definition copyFileSync :: "path \<Rightarrow> path \<Rightarrow> sml_world \<Rightarrow> (error + unit) \<times> sml_world" where
  "copyFileSync src dst w =
     (case fs w src of
        Some (File content) \<Rightarrow>
          if fs w dst = Some Dir then (Inl IOError, w)
          else (Inr (), w\<lparr>fs := (fs w)(dst \<mapsto> File content)\<rparr>)
      | _ \<Rightarrow> (Inl IOError, w))"

text \<open>\<open>fs.unlinkSync\<close>: removes a file, and throws on a directory or a missing path.\<close>

definition unlinkSync :: "path \<Rightarrow> sml_world \<Rightarrow> (error + unit) \<times> sml_world" where
  "unlinkSync p w =
     (case fs w p of
        Some (File content) \<Rightarrow> (Inr (), w\<lparr>fs := (fs w)(p := None)\<rparr>)
      | _ \<Rightarrow> (Inl IOError, w))"

text \<open>
  Modelled from the spec: \<open>downloadFile\<close> of the module \<open>utils\<close>, which is not among the
  files at hand. A download that fails throws and writes nothing. A download that succeeds
  writes the file at the destination, inside its directory, which is created if it is
  missing: \<open>getSMLVersionCache\<close> creates no directory itself, and the cache directory
  exists after a population.
\<close>

definition downloadFile :: "string \<Rightarrow> path \<Rightarrow> sml_world \<Rightarrow> (error + unit) \<times> sml_world" where
  "downloadFile url file w =
     (let w1 = w\<lparr>requests := requests w @ [Download url]\<rparr> in
      case network w1 url of
        None \<Rightarrow> (Inl DownloadError, w1)
      | Some content \<Rightarrow>
          (let w2 = ensureExists (dirname file) w1 in
           if fs w2 file = Some Dir then (Inl IOError, w2)
           else (Inr (), w2\<lparr>fs := (fs w2)(file \<mapsto> File content)\<rparr>)))"

text \<open>
  Line 21. Modelled from the spec: the native reader \<open>smlVersionNative.getSMLVersion\<close>
  reads the primary artifact at its path and extracts the embedded version string; the
  absence of the file means absent.
\<close>

definition getSMLVersion :: "sml_world \<Rightarrow> path \<Rightarrow> string option" where
  "getSMLVersion w satisfactoryPath =
     (case fs w (satisfactoryPath @ SMLDLLRelativePath) of
        Some (File content) \<Rightarrow> embeddedVersion w content
      | _ \<Rightarrow> None)"

definition notFound :: "string \<Rightarrow> error" where
  "notFound version = ModNotFoundError (''SML@'' @ version @ '' not found.'') ''SML'' version"

definition downloadLink :: "string \<Rightarrow> string \<Rightarrow> string" where
  "downloadLink smlReleaseURL fileName = replace smlReleaseURL ''/tag/'' ''/download/'' @ ''/'' @ fileName"

text \<open>Lines 29 to 55. The result of the first download is dropped, as the \<open>catch\<close> of line 48 does.\<close>

definition getSMLVersionCache :: "string \<Rightarrow> sml_world \<Rightarrow> (error + path) \<times> sml_world" where
  "getSMLVersionCache version w =
     (if \<not> truthy (semver w version) then (Inl (notFound version), w)
      else
        (let validVersion = (case semver w version of None \<Rightarrow> [] | Some v \<Rightarrow> v);
             smlVersionCacheDir = smlCacheDir w @ [validVersion];
             smlDLLVerionCacheFile = smlVersionCacheDir @ [SMLDLLFileName];
             smlPakVerionCacheFile = smlVersionCacheDir @ [SMLPakFileName]
         in if \<not> existsSync w smlVersionCacheDir then
              (let w1 = w\<lparr>requests := requests w @ [VersionInfo version]\<rparr> in
               if \<not> truthy (releases w1 version) then (Inl (notFound version), w1)
               else
                 (let smlReleaseURL = (case releases w1 version of None \<Rightarrow> [] | Some l \<Rightarrow> l);
                      w2 = snd (downloadFile (downloadLink smlReleaseURL SMLPakFileName)
                                  smlPakVerionCacheFile w1)
                  in case downloadFile (downloadLink smlReleaseURL SMLDLLFileName)
                            smlDLLVerionCacheFile w2 of
                       (Inl e, w3) \<Rightarrow> (Inl e, w3)
                     | (Inr u, w3) \<Rightarrow> (Inr smlVersionCacheDir, w3)))
            else (Inr smlVersionCacheDir, w)))"

text \<open>Lines 57 to 70.\<close>

definition installSML :: "string \<Rightarrow> path \<Rightarrow> sml_world \<Rightarrow> (error + unit) \<times> sml_world" where
  "installSML version satisfactoryPath w =
     (if \<not> truthy (getSMLVersion w satisfactoryPath) then
        (case getSMLVersionCache version w of
           (Inl e, w1) \<Rightarrow> (Inl e, w1)
         | (Inr smlVersionCache, w1) \<Rightarrow>
             (let w2 = ensureExists (dirname (satisfactoryPath @ SMLDLLRelativePath)) w1;
                  w3 = ensureExists (dirname (satisfactoryPath @ SMLPakRelativePath)) w2
              in case copyFileSync (smlVersionCache @ [SMLDLLFileName])
                        (satisfactoryPath @ SMLDLLRelativePath) w3 of
                   (Inl e, w4) \<Rightarrow> (Inl e, w4)
                 | (Inr u, w4) \<Rightarrow>
                     if existsSync w4 (smlVersionCache @ [SMLPakFileName])
                     then copyFileSync (smlVersionCache @ [SMLPakFileName])
                            (satisfactoryPath @ SMLPakRelativePath) w4
                     else (Inr (), w4)))
      else (Inr (), w))"

text \<open>Lines 72 to 85.\<close>

definition uninstallSML :: "path \<Rightarrow> sml_world \<Rightarrow> (error + unit) \<times> sml_world" where
  "uninstallSML satisfactoryPath w =
     (if \<not> truthy (getSMLVersion w satisfactoryPath) then (Inr (), w)
      else
        (case (if existsSync w (satisfactoryPath @ SMLDLLRelativePath)
               then unlinkSync (satisfactoryPath @ SMLDLLRelativePath) w
               else (Inr (), w)) of
           (Inl e, w1) \<Rightarrow> (Inl e, w1)
         | (Inr u, w1) \<Rightarrow>
             if existsSync w1 (satisfactoryPath @ SMLPakRelativePath)
             then unlinkSync (satisfactoryPath @ SMLPakRelativePath) w1
             else (Inr (), w1)))"

section \<open>An example cache\<close>

definition exampleGame :: path where
  "exampleGame = [''games'', ''Satisfactory'']"

definition exampleCache :: path where
  "exampleCache = [''cache'', ''smlCache'']"

text \<open>
  A world with an empty cache in which version 2.2.0 has a release; the flags say whether
  the downloads of the pak and of the DLL succeed, and the last argument is what the game
  directory holds at the path of the DLL.
\<close>

definition smlWorld :: "bool \<Rightarrow> bool \<Rightarrow> node option \<Rightarrow> sml_world" where
  "smlWorld pakOnline dllOnline installed =
     \<lparr>fs = (\<lambda>p. if p = exampleGame @ SMLDLLRelativePath then installed else None),
      network = (\<lambda>url.
         if url = ''https://github.com/satisfactorymodding/SatisfactoryModLoader/releases/download/v2.2.0/SML.pak''
           \<and> pakOnline then Some ''pak-bytes''
         else if url = ''https://github.com/satisfactorymodding/SatisfactoryModLoader/releases/download/v2.2.0/UE4-SML-Win64-Shipping.dll''
           \<and> dllOnline then Some ''dll-bytes''
         else None),
      releases = (\<lambda>v. if v = ''2.2.0'' then
         Some ''https://github.com/satisfactorymodding/SatisfactoryModLoader/releases/tag/v2.2.0''
         else None),
      embeddedVersion = (\<lambda>content. if content = ''dll-bytes'' then Some ''2.2.0'' else None),
      semver = (\<lambda>v. if v = ''2.2.0'' then Some ''2.2.0'' else None),
      smlCacheDir = exampleCache,
      requests = []\<rparr>"


section \<open>The installer: frame lemmas\<close>

lemma dirname_snoc [simp]: "dirname (p @ [n]) = p"
  by (simp add: dirname_def)

lemma dirname_relative [simp]:
  "dirname (g @ SMLDLLRelativePath) = g @ [''loaders'']"
  "dirname (g @ SMLPakRelativePath) = g @ [''loaders'']"
  by (simp_all add: dirname_def SMLDLLRelativePath_def SMLPakRelativePath_def butlast_append)

lemma ensureExists_fields [simp]:
  "network (ensureExists p w) = network w"
  "releases (ensureExists p w) = releases w"
  "embeddedVersion (ensureExists p w) = embeddedVersion w"
  "semver (ensureExists p w) = semver w"
  "smlCacheDir (ensureExists p w) = smlCacheDir w"
  "requests (ensureExists p w) = requests w"
  by (simp_all add: ensureExists_def)

lemma ensureExists_fs:
  "fs (ensureExists p w) q = (if q = p \<and> fs w p = None then Some Dir else fs w q)"
  by (simp add: ensureExists_def)

lemma copyFileSync_fields [simp]:
  "network (snd (copyFileSync a b w)) = network w"
  "releases (snd (copyFileSync a b w)) = releases w"
  "embeddedVersion (snd (copyFileSync a b w)) = embeddedVersion w"
  "semver (snd (copyFileSync a b w)) = semver w"
  "smlCacheDir (snd (copyFileSync a b w)) = smlCacheDir w"
  "requests (snd (copyFileSync a b w)) = requests w"
  by (simp_all add: copyFileSync_def split: option.split node.split)

lemma downloadFile_fields [simp]:
  "network (snd (downloadFile url file w)) = network w"
  "releases (snd (downloadFile url file w)) = releases w"
  "embeddedVersion (snd (downloadFile url file w)) = embeddedVersion w"
  "semver (snd (downloadFile url file w)) = semver w"
  "smlCacheDir (snd (downloadFile url file w)) = smlCacheDir w"
  by (simp_all add: downloadFile_def Let_def split: option.split)

lemma downloadFile_offline:
  "network w url = None \<Longrightarrow>
   downloadFile url file w = (Inl DownloadError, w\<lparr>requests := requests w @ [Download url]\<rparr>)"
  by (simp add: downloadFile_def)

lemma downloadFile_online:
  "network w url = Some content \<Longrightarrow> fs w (d @ [n]) \<noteq> Some Dir \<Longrightarrow>
   downloadFile url (d @ [n]) w
     = (Inr (), w\<lparr>requests := requests w @ [Download url],
                  fs := (fs (ensureExists d w))(d @ [n] \<mapsto> File content)\<rparr>)"
  by (simp add: downloadFile_def Let_def ensureExists_def)

lemma downloadFile_written:
  assumes "downloadFile url (d @ [n]) w = (Inr u, w')"
  shows "(\<exists>content. fs w' (d @ [n]) = Some (File content)) \<and> fs w' d \<noteq> None"
proof (cases "network w url")
  case None
  with assms show ?thesis by (simp add: downloadFile_offline)
next
  case (Some content)
  with assms show ?thesis
    by (auto simp: downloadFile_def Let_def ensureExists_def split: if_splits)
qed

lemma snd_rethrow:
  "snd (case x of (Inl e, w') \<Rightarrow> (Inl e, w') | (Inr u, w') \<Rightarrow> (Inr c, w')) = snd x"
  by (cases x; cases "fst x") auto

lemma getSMLVersionCache_embeddedVersion:
  "embeddedVersion (snd (getSMLVersionCache V w)) = embeddedVersion w"
proof (cases "truthy (semver w V)")
  case False
  then show ?thesis by (simp add: getSMLVersionCache_def)
next
  case valid: True
  show ?thesis
  proof (cases "existsSync w (smlCacheDir w @ [case semver w V of None \<Rightarrow> [] | Some v \<Rightarrow> v])")
    case True
    with valid show ?thesis by (simp add: getSMLVersionCache_def Let_def)
  next
    case miss: False
    show ?thesis
    proof (cases "truthy (releases w V)")
      case False
      with valid miss show ?thesis by (simp add: getSMLVersionCache_def Let_def)
    next
      case True
      with valid miss show ?thesis
        by (simp add: getSMLVersionCache_def Let_def snd_rethrow)
    qed
  qed
qed

lemma installSML_embeddedVersion:
  "embeddedVersion (snd (installSML V G w)) = embeddedVersion w"
proof (cases "getSMLVersionCache V w")
  case (Pair r w1)
  then have e: "embeddedVersion w1 = embeddedVersion w"
    using getSMLVersionCache_embeddedVersion [of V w] by simp
  show ?thesis
  proof (cases r)
    case (Inl err)
    with Pair e show ?thesis by (simp add: installSML_def)
  next
    case (Inr cache)
    let ?w3 = "ensureExists (dirname (G @ SMLPakRelativePath))
                 (ensureExists (dirname (G @ SMLDLLRelativePath)) w1)"
    obtain r4 w4 where c: "copyFileSync (cache @ [SMLDLLFileName]) (G @ SMLDLLRelativePath) ?w3 = (r4, w4)"
      by force
    then have e4: "embeddedVersion w4 = embeddedVersion w"
      using copyFileSync_fields(3) [of "cache @ [SMLDLLFileName]" "G @ SMLDLLRelativePath" ?w3] e
      by simp
    have e5: "embeddedVersion (snd (copyFileSync (cache @ [SMLPakFileName]) (G @ SMLPakRelativePath) w4))
        = embeddedVersion w"
      using e4 by simp
    from Pair Inr c e4 e5 show ?thesis
      by (cases r4) (simp_all add: installSML_def Let_def del: dirname_relative)
  qed
qed

lemma unlinkSync_keeps_absent:
  "fs w q = None \<Longrightarrow> fs (snd (unlinkSync p w)) q = None"
  by (simp add: unlinkSync_def split: option.split node.split)

lemma getSMLVersion_absent:
  "fs w (G @ SMLDLLRelativePath) = None \<Longrightarrow> getSMLVersion w G = None"
  by (simp add: getSMLVersion_def)

lemma uninstallSML_absent:
  assumes "\<forall>content. embeddedVersion w content \<noteq> Some []"
  shows "getSMLVersion (snd (uninstallSML G w)) G = None"
proof (cases "truthy (getSMLVersion w G)")
  case False
  have "getSMLVersion w G = None"
  proof (cases "getSMLVersion w G")
    case (Some v)
    with False have "v = []" by (simp add: truthy_def)
    with Some obtain content where "embeddedVersion w content = Some []"
      by (cases "fs w (G @ SMLDLLRelativePath)"; cases "the (fs w (G @ SMLDLLRelativePath))")
         (auto simp: getSMLVersion_def)
    with assms show ?thesis by blast
  qed simp
  with False show ?thesis by (simp add: uninstallSML_def)
next
  case True
  then obtain content where f: "fs w (G @ SMLDLLRelativePath) = Some (File content)"
    by (cases "fs w (G @ SMLDLLRelativePath)"; cases "the (fs w (G @ SMLDLLRelativePath))")
       (auto simp: truthy_def getSMLVersion_def)
  let ?w1 = "w\<lparr>fs := (fs w)(G @ SMLDLLRelativePath := None)\<rparr>"
  have u: "unlinkSync (G @ SMLDLLRelativePath) w = (Inr (), ?w1)"
    using f by (simp add: unlinkSync_def)
  have a: "fs ?w1 (G @ SMLDLLRelativePath) = None" by simp
  have "uninstallSML G w
      = (if existsSync ?w1 (G @ SMLPakRelativePath) then unlinkSync (G @ SMLPakRelativePath) ?w1
         else (Inr (), ?w1))"
    using True f u by (simp add: uninstallSML_def existsSync_def)
  then have "fs (snd (uninstallSML G w)) (G @ SMLDLLRelativePath) = None"
    using unlinkSync_keeps_absent [OF a, of "G @ SMLPakRelativePath"] a
    by (cases "existsSync ?w1 (G @ SMLPakRelativePath)") simp_all
  then show ?thesis by (rule getSMLVersion_absent)
qed


section \<open>Example profiles\<close>

definition exampleConfig :: "string \<Rightarrow> steam_config" where
  "exampleConfig lo = \<lparr>apps = Some [GAME_ID \<mapsto> \<lparr>LaunchOptions = Some lo\<rparr>], Apps = None\<rparr>"

definition exampleWorld :: "string \<Rightarrow> bool \<Rightarrow> steam_world" where
  "exampleWorld lo running =
     \<lparr>userdata = Some [''1001''],
      localconfig = [''1001'' \<mapsto> Parsed (exampleConfig lo)],
      steamRunning = running,
      writeFails = (\<lambda>user. False),
      trace = []\<rparr>"

lemma changePlanned_example:
  "patchLaunchOptions (Some lo) = (lo', True) \<Longrightarrow>
   changePlanned (exampleWorld lo running) ''1001'' = Some (exampleConfig lo, lo')"
  by (simp add: changePlanned_def exampleWorld_def exampleConfig_def unifyApps_def)

lemma patch_example: "patchLaunchOptions (Some ''-dx11'') = (BLOCK_OPEN @ REQUIRED @ BSQ @ '' -dx11'', True)"
  by code_simp

lemma conformant_default: "conformant DEFAULT_OPTIONS"
  by code_simp

text \<open>Two profiles: the file of the first does not parse, the second is as above.\<close>

definition exampleProfiles :: "string \<Rightarrow> bool \<Rightarrow> steam_world" where
  "exampleProfiles lo running =
     \<lparr>userdata = Some [''1000'', ''1001''],
      localconfig = [''1000'' \<mapsto> ParseThrows, ''1001'' \<mapsto> Parsed (exampleConfig lo)],
      steamRunning = running,
      writeFails = (\<lambda>user. False),
      trace = []\<rparr>"

section \<open>The launch-options patcher: results\<close>

text \<open>
  C3. A block that holds the required sub-value twice in a row is to be rewritten so that
  the sub-value occurs once. The source deletes the first separator and sub-value in its
  loop and then appends the separator and the sub-value again: on the launch options whose
  block is exactly the duplicated sub-value the result is the input itself, with the
  sub-value still occurring twice.
\<close>

theorem patchLaunchOptions_duplicate_kept:
  "patchLaunchOptions (Some (BLOCK_OPEN @ DUPLICATED @ BSQ @ '' %command%''))
     = (BLOCK_OPEN @ DUPLICATED @ BSQ @ '' %command%'', True) \<and>
   occurrences (fst (patchLaunchOptions (Some (BLOCK_OPEN @ DUPLICATED @ BSQ @ '' %command%''))))
     REQUIRED = 2"
  by code_simp

text \<open>
  C6. The rewrite is to be idempotent. On the block \<open>a;R;R;b;R\<close> (\<open>R\<close> the required
  sub-value) the first application yields the block \<open>a;R;b;R;R\<close> and the second one the
  block \<open>a;b;R;R\<close>: applying the rewrite twice differs from applying it once.
\<close>

theorem patchLaunchOptions_not_idempotent:
  "fst (patchLaunchOptions (Some
      (BLOCK_OPEN @ ''a'' @ SEP_REQUIRED @ SEP_REQUIRED @ '';b'' @ SEP_REQUIRED @ BSQ)))
     = BLOCK_OPEN @ ''a'' @ SEP_REQUIRED @ '';b'' @ SEP_REQUIRED @ SEP_REQUIRED @ BSQ \<and>
   fst (patchLaunchOptions (Some
      (BLOCK_OPEN @ ''a'' @ SEP_REQUIRED @ '';b'' @ SEP_REQUIRED @ SEP_REQUIRED @ BSQ)))
     = BLOCK_OPEN @ ''a;b'' @ SEP_REQUIRED @ SEP_REQUIRED @ BSQ"
  by code_simp

text \<open>
  C9. When a profile's launch options need a change and Steam is running, the callback
  fails with \<open>SetupError\<close> after the liveness check, the file is not written, and the error
  is the result of the iteration and of \<open>setupSteam\<close>, at whatever place of the list the
  profile stands. When Steam is not running the file is written, after the liveness check,
  with the new launch options of the game in it. The callback writes only when Steam is not
  running, and its write comes right after its liveness check; in a whole run every write
  comes right after a liveness check, and with Steam running no file is written. Every other
  error of the callback is caught and logged: a file that cannot be read or parsed, a missing
  entry of the game, a write that fails, each add the logged error to the trace, and a
  callback that returns has left the world as it was, logged, or written. No error but
  \<open>SetupError\<close> leaves the callback, and after a callback that returns the iteration goes
  on with the remaining profiles.
\<close>

theorem setupSteam_running_guard:
  "(changePlanned w user = Some (cfg, lo) \<and> steamRunning w \<longrightarrow>
      setupSteamUser user w
        = (Inl (SetupError SETUP_ERROR_MESSAGE), w\<lparr>trace := trace w @ [LivenessChecked]\<rparr>) \<and>
      forEachAsync (user # users) w
        = (Inl (SetupError SETUP_ERROR_MESSAGE), w\<lparr>trace := trace w @ [LivenessChecked]\<rparr>) \<and>
      (userdata w = Some (user # users) \<longrightarrow>
         setupSteam w
           = (Inl (SetupError SETUP_ERROR_MESSAGE), w\<lparr>trace := trace w @ [LivenessChecked]\<rparr>))) \<and>
   (changePlanned w user = Some (cfg, lo) \<and> \<not> steamRunning w \<and> \<not> writeFails w user \<longrightarrow>
      setupSteamUser user w
        = (Inr (),
           w\<lparr>localconfig := (localconfig w)(user \<mapsto> Parsed (setLaunchOptions cfg lo)),
             trace := trace w @ [LivenessChecked, Written user]\<rparr>)) \<and>
   (localconfig (snd (setupSteamUser user w)) \<noteq> localconfig w \<longrightarrow>
      \<not> steamRunning w \<and>
      trace (snd (setupSteamUser user w)) = trace w @ [LivenessChecked, Written user]) \<and>
   (setupSteamUser user w = (Inl e, w') \<longrightarrow> isSetupError e \<and> localconfig w' = localconfig w) \<and>
   (setupSteamUser user w = (Inr (), w') \<longrightarrow>
      forEachAsync (user # users) w = forEachAsync users w') \<and>
   (localconfig w user = None \<longrightarrow>
      setupSteamUser user w = (Inr (), w\<lparr>trace := trace w @ [ErrorLogged IOError]\<rparr>)) \<and>
   (localconfig w user = Some ParseThrows \<longrightarrow>
      setupSteamUser user w = (Inr (), w\<lparr>trace := trace w @ [ErrorLogged ParseError]\<rparr>)) \<and>
   (localconfig w user = Some (Parsed c) \<and> unifyApps c = Some (c1, table) \<and> table GAME_ID = None \<longrightarrow>
      setupSteamUser user w = (Inr (), w\<lparr>trace := trace w @ [ErrorLogged TypeError]\<rparr>)) \<and>
   (localconfig w user = Some (Parsed c) \<and> unifyApps c = None \<longrightarrow>
      setupSteamUser user w
        = (Inr (), w\<lparr>trace := trace w @ [MessageLogged APPS_KEY_NOT_FOUND]\<rparr>)) \<and>
   (changePlanned w user = Some (cfg, lo) \<and> \<not> steamRunning w \<and> writeFails w user \<longrightarrow>
      setupSteamUser user w
        = (Inr (), w\<lparr>trace := trace w @ [LivenessChecked, ErrorLogged IOError]\<rparr>)) \<and>
   (setupSteamUser user w = (Inr (), w') \<longrightarrow>
      w' = w \<or>
      (\<exists>x. \<not> isSetupError x \<and> w' = w\<lparr>trace := trace w @ [ErrorLogged x]\<rparr>) \<or>
      w' = w\<lparr>trace := trace w @ [MessageLogged APPS_KEY_NOT_FOUND]\<rparr> \<or>
      w' = w\<lparr>trace := trace w @ [LivenessChecked, ErrorLogged IOError]\<rparr> \<or>
      (\<exists>c l. changePlanned w user = Some (c, l) \<and>
         w' = w\<lparr>localconfig := (localconfig w)(user \<mapsto> Parsed (setLaunchOptions c l)),
                trace := trace w @ [LivenessChecked, Written user]\<rparr>)) \<and>
   (forEachAsync pre w0 = (Inr (), w) \<and> changePlanned w user = Some (cfg, lo) \<and> steamRunning w \<longrightarrow>
      forEachAsync (pre @ user # users) w0
        = (Inl (SetupError SETUP_ERROR_MESSAGE), w\<lparr>trace := trace w @ [LivenessChecked]\<rparr>) \<and>
      (userdata w0 = Some (pre @ user # users) \<longrightarrow>
         setupSteam w0
           = (Inl (SetupError SETUP_ERROR_MESSAGE), w\<lparr>trace := trace w @ [LivenessChecked]\<rparr>))) \<and>
   (forEachAsync pre w0 = (Inr (), w) \<and> setupSteamUser user w = (Inr (), w') \<longrightarrow>
      forEachAsync (pre @ user # users) w0 = forEachAsync users w') \<and>
   (trace (snd (setupSteamUser user w)) = trace w @ evs \<and> Written u \<in> set evs \<longrightarrow>
      \<not> steamRunning w \<and> u = user \<and> evs = [LivenessChecked, Written user]) \<and>
   (\<exists>run. trace (snd (forEachAsync users w)) = trace w @ run \<and> guarded run \<and>
      (steamRunning w \<longrightarrow> (\<forall>u. Written u \<notin> set run))) \<and>
   (steamRunning w \<longrightarrow> localconfig (snd (forEachAsync users w)) = localconfig w) \<and>
   (changePlanned w user = Some (cfg, lo) \<longrightarrow>
      localconfig w user = Some (Parsed cfg) \<and>
      (\<exists>cfg1 games app. unifyApps cfg = Some (cfg1, games) \<and> games GAME_ID = Some app \<and>
         patchLaunchOptions (LaunchOptions app) = (lo, True)) \<and>
      (\<exists>cfg2 games2 app2. unifyApps (setLaunchOptions cfg lo) = Some (cfg2, games2) \<and>
         games2 GAME_ID = Some app2 \<and> LaunchOptions app2 = Some lo))"
proof (intro conjI impI)
  assume a: "changePlanned w user = Some (cfg, lo) \<and> steamRunning w"
  then show r: "setupSteamUser user w
        = (Inl (SetupError SETUP_ERROR_MESSAGE), w\<lparr>trace := trace w @ [LivenessChecked]\<rparr>)"
    using setupSteamUser_running by blast
  then show f: "forEachAsync (user # users) w
        = (Inl (SetupError SETUP_ERROR_MESSAGE), w\<lparr>trace := trace w @ [LivenessChecked]\<rparr>)"
    by simp
  assume "userdata w = Some (user # users)"
  with f show "setupSteam w
           = (Inl (SetupError SETUP_ERROR_MESSAGE), w\<lparr>trace := trace w @ [LivenessChecked]\<rparr>)"
    by (simp add: setupSteam_def)
next
  assume "changePlanned w user = Some (cfg, lo) \<and> \<not> steamRunning w \<and> \<not> writeFails w user"
  then show "setupSteamUser user w
        = (Inr (),
           w\<lparr>localconfig := (localconfig w)(user \<mapsto> Parsed (setLaunchOptions cfg lo)),
             trace := trace w @ [LivenessChecked, Written user]\<rparr>)"
    using setupSteamUser_write by blast
next
  assume c: "localconfig (snd (setupSteamUser user w)) \<noteq> localconfig w"
  then show "\<not> steamRunning w" using setupSteamUser_changes by blast
  from c show "trace (snd (setupSteamUser user w)) = trace w @ [LivenessChecked, Written user]"
    using setupSteamUser_changes by blast
next
  assume e: "setupSteamUser user w = (Inl e, w')"
  then show "isSetupError e" using setupSteamUser_error by fastforce
  from e show "localconfig w' = localconfig w" using setupSteamUser_error by blast
next
  assume "setupSteamUser user w = (Inr (), w')"
  then show "forEachAsync (user # users) w = forEachAsync users w'" by simp
next
  assume "localconfig w user = None"
  then show "setupSteamUser user w = (Inr (), w\<lparr>trace := trace w @ [ErrorLogged IOError]\<rparr>)"
    by (rule setupSteamUser_unreadable)
next
  assume "localconfig w user = Some ParseThrows"
  then show "setupSteamUser user w = (Inr (), w\<lparr>trace := trace w @ [ErrorLogged ParseError]\<rparr>)"
    by (rule setupSteamUser_unparsable)
next
  assume "localconfig w user = Some (Parsed c) \<and> unifyApps c = Some (c1, table) \<and> table GAME_ID = None"
  then show "setupSteamUser user w = (Inr (), w\<lparr>trace := trace w @ [ErrorLogged TypeError]\<rparr>)"
    using setupSteamUser_no_game by blast
next
  assume "localconfig w user = Some (Parsed c) \<and> unifyApps c = None"
  then show "setupSteamUser user w
        = (Inr (), w\<lparr>trace := trace w @ [MessageLogged APPS_KEY_NOT_FOUND]\<rparr>)"
    using setupSteamUser_no_apps by blast
next
  assume "changePlanned w user = Some (cfg, lo) \<and> \<not> steamRunning w \<and> writeFails w user"
  then show "setupSteamUser user w
        = (Inr (), w\<lparr>trace := trace w @ [LivenessChecked, ErrorLogged IOError]\<rparr>)"
    using setupSteamUser_write_fails by blast
next
  assume "setupSteamUser user w = (Inr (), w')"
  then show "w' = w \<or>
      (\<exists>x. \<not> isSetupError x \<and> w' = w\<lparr>trace := trace w @ [ErrorLogged x]\<rparr>) \<or>
      w' = w\<lparr>trace := trace w @ [MessageLogged APPS_KEY_NOT_FOUND]\<rparr> \<or>
      w' = w\<lparr>trace := trace w @ [LivenessChecked, ErrorLogged IOError]\<rparr> \<or>
      (\<exists>c l. changePlanned w user = Some (c, l) \<and>
         w' = w\<lparr>localconfig := (localconfig w)(user \<mapsto> Parsed (setLaunchOptions c l)),
                trace := trace w @ [LivenessChecked, Written user]\<rparr>)"
    by (rule setupSteamUser_returns)
next
  assume p: "forEachAsync pre w0 = (Inr (), w) \<and> changePlanned w user = Some (cfg, lo) \<and> steamRunning w"
  then show f: "forEachAsync (pre @ user # users) w0
        = (Inl (SetupError SETUP_ERROR_MESSAGE), w\<lparr>trace := trace w @ [LivenessChecked]\<rparr>)"
    using forEachAsync_propagates by blast
  assume "userdata w0 = Some (pre @ user # users)"
  with f show "setupSteam w0
           = (Inl (SetupError SETUP_ERROR_MESSAGE), w\<lparr>trace := trace w @ [LivenessChecked]\<rparr>)"
    by (simp add: setupSteam_def)
next
  assume "forEachAsync pre w0 = (Inr (), w) \<and> setupSteamUser user w = (Inr (), w')"
  then show "forEachAsync (pre @ user # users) w0 = forEachAsync users w'"
    using forEachAsync_continues by blast
next
  assume t: "trace (snd (setupSteamUser user w)) = trace w @ evs \<and> Written u \<in> set evs"
  then show "\<not> steamRunning w" using setupSteamUser_written by blast
  from t show "u = user" using setupSteamUser_written by blast
  from t show "evs = [LivenessChecked, Written user]" using setupSteamUser_written by blast
next
  show "\<exists>run. trace (snd (forEachAsync users w)) = trace w @ run \<and> guarded run \<and>
      (steamRunning w \<longrightarrow> (\<forall>u. Written u \<notin> set run))"
    by (rule forEachAsync_trace)
next
  assume "steamRunning w"
  then show "localconfig (snd (forEachAsync users w)) = localconfig w"
    by (rule forEachAsync_running_frame)
next
  assume c: "changePlanned w user = Some (cfg, lo)"
  from changePlanned_holds [OF c] show "localconfig w user = Some (Parsed cfg)" by blast
  from changePlanned_holds [OF c] show h: "\<exists>cfg1 games app. unifyApps cfg = Some (cfg1, games) \<and>
      games GAME_ID = Some app \<and> patchLaunchOptions (LaunchOptions app) = (lo, True)"
    by blast
  then show "\<exists>cfg2 games2 app2. unifyApps (setLaunchOptions cfg lo) = Some (cfg2, games2) \<and>
         games2 GAME_ID = Some app2 \<and> LaunchOptions app2 = Some lo"
    using setLaunchOptions_holds by blast
qed

theorem setupSteam_running_guard_witness:
  "setupSteam (exampleWorld ''-dx11'' True)
     = (Inl (SetupError SETUP_ERROR_MESSAGE), (exampleWorld ''-dx11'' True)\<lparr>trace := [LivenessChecked]\<rparr>) \<and>
   setupSteamUser ''1001'' (exampleWorld ''-dx11'' False)
     = (Inr (),
        (exampleWorld ''-dx11'' False)
          \<lparr>localconfig := [''1001'' \<mapsto> Parsed (setLaunchOptions (exampleConfig ''-dx11'')
                                         (BLOCK_OPEN @ REQUIRED @ BSQ @ '' -dx11''))],
            trace := [LivenessChecked, Written ''1001'']\<rparr>) \<and>
   setupSteamUser ''1000'' (exampleProfiles ''-dx11'' True)
     = (Inr (), (exampleProfiles ''-dx11'' True)\<lparr>trace := [ErrorLogged ParseError]\<rparr>) \<and>
   setupSteam (exampleProfiles ''-dx11'' True)
     = (Inl (SetupError SETUP_ERROR_MESSAGE),
        (exampleProfiles ''-dx11'' True)\<lparr>trace := [ErrorLogged ParseError, LivenessChecked]\<rparr>)"
proof -
  note p = changePlanned_example [OF patch_example]
  let ?lo = "BLOCK_OPEN @ REQUIRED @ BSQ @ '' -dx11''"
  let ?w0 = "exampleProfiles ''-dx11'' True"
  let ?w1 = "?w0\<lparr>trace := [ErrorLogged ParseError]\<rparr>"
  have "setupSteam (exampleWorld ''-dx11'' True)
     = (Inl (SetupError SETUP_ERROR_MESSAGE), (exampleWorld ''-dx11'' True)\<lparr>trace := [LivenessChecked]\<rparr>)"
    using setupSteam_running_guard
      [where w = "exampleWorld ''-dx11'' True" and user = "''1001''"
         and cfg = "exampleConfig ''-dx11''" and lo = ?lo and users = "[]"]
      p [of True]
    by (simp add: exampleWorld_def)
  moreover have "setupSteamUser ''1001'' (exampleWorld ''-dx11'' False)
     = (Inr (),
        (exampleWorld ''-dx11'' False)
          \<lparr>localconfig := [''1001'' \<mapsto> Parsed (setLaunchOptions (exampleConfig ''-dx11'') ?lo)],
            trace := [LivenessChecked, Written ''1001'']\<rparr>)"
    using setupSteam_running_guard
      [where w = "exampleWorld ''-dx11'' False" and user = "''1001''"
         and cfg = "exampleConfig ''-dx11''" and lo = ?lo]
      p [of False]
    by (simp add: exampleWorld_def)
  moreover have first: "setupSteamUser ''1000'' ?w0 = (Inr (), ?w1)"
    using setupSteam_running_guard [where w = ?w0 and user = "''1000''"]
    by (simp add: exampleProfiles_def)
  moreover have "setupSteam ?w0
     = (Inl (SetupError SETUP_ERROR_MESSAGE), ?w0\<lparr>trace := [ErrorLogged ParseError, LivenessChecked]\<rparr>)"
  proof -
    have a: "forEachAsync [''1000''] ?w0 = (Inr (), ?w1)" using first by simp
    have b: "changePlanned ?w1 ''1001'' = Some (exampleConfig ''-dx11'', ?lo)"
      using patch_example
      by (simp add: changePlanned_def exampleProfiles_def exampleConfig_def unifyApps_def)
    have c: "steamRunning ?w1" "userdata ?w0 = Some ([''1000''] @ ''1001'' # [])"
      by (simp_all add: exampleProfiles_def)
    from setupSteam_running_guard
      [where w = ?w1 and user = "''1001''" and cfg = "exampleConfig ''-dx11''" and lo = ?lo
         and pre = "[''1000'']" and ?w0.0 = ?w0 and users = "[]"] a b c
    have "setupSteam ?w0
      = (Inl (SetupError SETUP_ERROR_MESSAGE), ?w1\<lparr>trace := trace ?w1 @ [LivenessChecked]\<rparr>)"
      by blast
    then show ?thesis by simp
  qed
  ultimately show ?thesis by simp
qed

text \<open>
  C10. For a profile whose launch options are conformant the callback returns with the
  world as it was: the trace has no new liveness check and no write, and the file is what it
  was, whether or not Steam is running. When every profile is conformant the same holds of
  \<open>setupSteam\<close>.
\<close>

theorem setupSteam_conformant_untouched:
  "(profileConformant w user \<longrightarrow> setupSteamUser user w = (Inr (), w)) \<and>
   (userdata w = Some users \<and> list_all (profileConformant w) users \<longrightarrow>
      setupSteam w = (Inr (), w))"
  by (simp add: setupSteamUser_conformant forEachAsync_conformant setupSteam_def)

theorem setupSteam_conformant_untouched_witness:
  "steamRunning (exampleWorld DEFAULT_OPTIONS True) \<and>
   setupSteam (exampleWorld DEFAULT_OPTIONS True) = (Inr (), exampleWorld DEFAULT_OPTIONS True)"
proof -
  have pc: "profileConformant (exampleWorld DEFAULT_OPTIONS True) ''1001''"
    using conformant_default
    by (simp add: profileConformant_def exampleWorld_def exampleConfig_def unifyApps_def)
  have "setupSteam (exampleWorld DEFAULT_OPTIONS True) = (Inr (), exampleWorld DEFAULT_OPTIONS True)"
    using setupSteam_conformant_untouched
      [of "exampleWorld DEFAULT_OPTIONS True" "''1001''" "[''1001'']"] pc
    by (simp add: exampleWorld_def)
  then show ?thesis by (simp add: exampleWorld_def)
qed


section \<open>Discovery: results\<close>

lemma exampleRoots:
  "reachesRoots (discoveryWorld m b) [(''1'', exampleLibrary), (''2'', emptyLibrary), (''ContentStatsID'', [''0''])]"
  "libraryRoots (discoveryWorld m b) [(''1'', exampleLibrary), (''2'', emptyLibrary), (''ContentStatsID'', [''0''])]
     = [exampleLibrary, emptyLibrary, STEAM_DATA_LOCATION (discoveryWorld m b)]"
  by (simp_all add: reachesRoots_def libraryRoots_def discoveryWorld_def STEAM_DATA_LOCATION_def
      isNumericKey_def isDigit_def)

lemma probeRoot_emptyLibrary: "probeRoot (discoveryWorld m b) emptyLibrary = NoManifest"
  by (simp add: probeRoot_def discoveryWorld_def emptyLibrary_def exampleLibrary_def exampleHome_def
      APP_MANIFEST_def GAME_EXE_def)

lemma probeRoot_steamRoot:
  "probeRoot (discoveryWorld m b) (STEAM_DATA_LOCATION (discoveryWorld m b))
     = Awaiting (STEAM_DATA_LOCATION (discoveryWorld m b) @ [''steamapps'', ''common'', ''Satisfactory''])
         exampleState
         (STEAM_DATA_LOCATION (discoveryWorld m b) @ [''steamapps'', ''common'', ''Satisfactory''] @ GAME_EXE)"
  by (simp add: probeRoot_def discoveryWorld_def emptyLibrary_def exampleLibrary_def exampleHome_def
      APP_MANIFEST_def GAME_EXE_def STEAM_DATA_LOCATION_def exampleState_def Let_def)

lemma clVersion_example: "clVersion ''++FactoryGame+rel-main-CL-123456'' = Some ''123456''"
  by code_simp

lemma getGameVersionFromExe_example:
  "getGameVersionFromExe (discoveryWorld m b) exe = Inr ''123456''"
proof -
  have pv: "productVersion (discoveryWorld m b) exe = Some ''++FactoryGame+rel-main-CL-123456''"
    by (simp add: discoveryWorld_def)
  show ?thesis
    by (simp add: getGameVersionFromExe_def pv clVersion_example del: clVersion.simps)
qed

lemma finishRoot_example:
  "finishRoot (discoveryWorld m b) (root @ [''steamapps'', ''common'', ''Satisfactory'']) exampleState exe
     = Inr (exampleInstall root)"
  by (simp add: finishRoot_def getGameVersionFromExe_example exampleState_def exampleInstall_def)

lemma probeRoot_library_throws:
  "probeRoot (discoveryWorld ParseThrows b) exampleLibrary = Rejected ParseError"
  by (simp add: probeRoot_def discoveryWorld_def)

lemma probeRoot_library_invalid:
  "probeRoot (discoveryWorld (Parsed None) b) exampleLibrary = InvalidManifest (exampleLibrary @ APP_MANIFEST)"
  by (simp add: probeRoot_def discoveryWorld_def)

lemma probeRoot_library_missing:
  "probeRoot (discoveryWorld (Parsed (Some \<lparr>AppState = Some exampleState\<rparr>)) False) exampleLibrary
     = MissingExecutable (exampleLibrary @ [''steamapps'', ''common'', ''Satisfactory''])"
  by (simp add: probeRoot_def discoveryWorld_def exampleState_def Let_def exampleLibrary_def exampleHome_def
      APP_MANIFEST_def GAME_EXE_def)

text \<open>
  C4, as stated: a library folder whose manifest is valid and whose executable exists is in
  \<open>installs\<close> even when the callback of another folder fails. With a manifest under
  \<open>/mnt/games\<close> on which \<open>vdf.parse\<close> throws, the callback of the Steam data location waits
  for its version with a valid manifest and an executable, and its install is not in the
  result: \<open>installs\<close> is empty.
\<close>

theorem getInstalls_sibling_lost:
  "probeRoot (discoveryWorld ParseThrows True) exampleLibrary = Rejected ParseError \<and>
   probeRoot (discoveryWorld ParseThrows True) (STEAM_DATA_LOCATION (discoveryWorld ParseThrows True))
     = Awaiting (STEAM_DATA_LOCATION (discoveryWorld ParseThrows True) @ [''steamapps'', ''common'', ''Satisfactory''])
         exampleState
         (STEAM_DATA_LOCATION (discoveryWorld ParseThrows True) @ [''steamapps'', ''common'', ''Satisfactory''] @ GAME_EXE) \<and>
   finishRoot (discoveryWorld ParseThrows True)
       (STEAM_DATA_LOCATION (discoveryWorld ParseThrows True) @ [''steamapps'', ''common'', ''Satisfactory''])
       exampleState
       (STEAM_DATA_LOCATION (discoveryWorld ParseThrows True) @ [''steamapps'', ''common'', ''Satisfactory''] @ GAME_EXE)
     = Inr (exampleInstall (STEAM_DATA_LOCATION (discoveryWorld ParseThrows True))) \<and>
   getInstalls (discoveryWorld ParseThrows True)
     = (\<lparr>installs = [], invalidInstalls = []\<rparr>, [ErrorLogged ParseError])"
proof -
  have "getInstalls (discoveryWorld ParseThrows True)
     = (\<lparr>installs = [], invalidInstalls = []\<rparr>, [ErrorLogged ParseError])"
    by (simp add: getInstalls_reachesRoots [OF exampleRoots(1)] exampleRoots(2) processRoots_def
        probeRoot_emptyLibrary probeRoot_steamRoot probeRoot_library_throws settleRoots_def)
  then show ?thesis
    by (simp add: probeRoot_library_throws probeRoot_steamRoot finishRoot_example)
qed

text \<open>
  C4, amended. When no callback throws before its first \<open>await\<close> and none fails after it,
  every library folder with a valid manifest and an executable has its install in
  \<open>installs\<close>: a folder with no manifest, with a manifest without \<open>AppState\<close> or with a
  missing executable does not stand in the way of the others. When the callback of a folder
  throws, \<open>getInstalls\<close> still returns: the error is logged, \<open>invalidInstalls\<close> holds
  the install paths that the callbacks have pushed, and \<open>installs\<close> is empty.
\<close>

theorem getInstalls_failure_contained:
  "reachesRoots w entries \<longrightarrow>
     (list_all (healthy w) (map (probeRoot w) (libraryRoots w entries)) \<and>
      r \<in> set (libraryRoots w entries) \<and> probeRoot w r = Awaiting p st exe \<and>
      finishRoot w p st exe = Inr i \<longrightarrow>
        i \<in> set (installs (fst (getInstalls w)))) \<and>
     (r \<in> set (libraryRoots w entries) \<and> probeRoot w r = Rejected e \<longrightarrow>
        installs (fst (getInstalls w)) = [] \<and>
        invalidInstalls (fst (getInstalls w))
          = concat (map invalidOf (map (probeRoot w) (libraryRoots w entries))) \<and>
        (\<exists>e'. snd (getInstalls w)
           = concat (map messageOf (map (probeRoot w) (libraryRoots w entries))) @ [ErrorLogged e']))"
proof (intro impI conjI)
  assume reach: "reachesRoots w entries"
  let ?outs = "map (probeRoot w) (libraryRoots w entries)"
  have g: "getInstalls w = settleRoots w ?outs"
    using reach by (simp add: getInstalls_reachesRoots processRoots_def)
  {
    assume a: "list_all (healthy w) ?outs \<and> r \<in> set (libraryRoots w entries) \<and>
      probeRoot w r = Awaiting p st exe \<and> finishRoot w p st exe = Inr i"
    then have "installs (fst (getInstalls w)) = concat (map (installOf w) ?outs)"
      using g settleRoots_healthy [of w ?outs] by simp
    moreover from a have "i \<in> set (installOf w (probeRoot w r))" by simp
    with a have "\<exists>x \<in> set (libraryRoots w entries). i \<in> set (installOf w (probeRoot w x))"
      by blast
    then have "i \<in> set (concat (map (installOf w) ?outs))" by simp
    ultimately show "i \<in> set (installs (fst (getInstalls w)))" by simp
  }
  {
    assume b: "r \<in> set (libraryRoots w entries) \<and> probeRoot w r = Rejected e"
    then have "Rejected e \<in> set ?outs" by force
    from settleRoots_Rejected [OF this, of w] obtain e' where
      s: "settleRoots w ?outs = (\<lparr>installs = [], invalidInstalls = concat (map invalidOf ?outs)\<rparr>,
            concat (map messageOf ?outs) @ [ErrorLogged e'])"
      by blast
    with g show "installs (fst (getInstalls w)) = []" by simp
    from g s show "invalidInstalls (fst (getInstalls w)) = concat (map invalidOf ?outs)" by simp
    from g s show "\<exists>e'. snd (getInstalls w) = concat (map messageOf ?outs) @ [ErrorLogged e']" by simp
  }
qed

theorem getInstalls_failure_contained_witness:
  "exampleInstall (STEAM_DATA_LOCATION (discoveryWorld (Parsed None) True))
     \<in> set (installs (fst (getInstalls (discoveryWorld (Parsed None) True)))) \<and>
   installs (fst (getInstalls (discoveryWorld ParseThrows False))) = [] \<and>
   invalidInstalls (fst (getInstalls (discoveryWorld ParseThrows False))) = []"
proof -
  let ?entries = "[(''1'', exampleLibrary), (''2'', emptyLibrary), (''ContentStatsID'', [''0''])]"
  let ?ok = "discoveryWorld (Parsed None) True"
  let ?bad = "discoveryWorld ParseThrows False"
  have "exampleInstall (STEAM_DATA_LOCATION ?ok) \<in> set (installs (fst (getInstalls ?ok)))"
    using getInstalls_failure_contained
      [of ?ok ?entries "STEAM_DATA_LOCATION ?ok"
          "STEAM_DATA_LOCATION ?ok @ [''steamapps'', ''common'', ''Satisfactory'']" exampleState
          "STEAM_DATA_LOCATION ?ok @ [''steamapps'', ''common'', ''Satisfactory''] @ GAME_EXE"
          "exampleInstall (STEAM_DATA_LOCATION ?ok)"]
      exampleRoots [of "Parsed None" True]
    by (simp add: probeRoot_emptyLibrary probeRoot_steamRoot probeRoot_library_invalid
        finishRoot_example)
  moreover have "installs (fst (getInstalls ?bad)) = [] \<and> invalidInstalls (fst (getInstalls ?bad)) = []"
    using getInstalls_failure_contained [of ?bad ?entries exampleLibrary _ _ _ _ ParseError]
      exampleRoots [of ParseThrows False]
    by (simp add: probeRoot_emptyLibrary probeRoot_steamRoot probeRoot_library_throws)
  ultimately show ?thesis by simp
qed

text \<open>
  C8. For a library folder that \<open>getInstalls\<close> processes: when its manifest exists and
  parses to a value with \<open>AppState\<close> and the executable is missing under the install
  path, the callback pushes the install path on \<open>invalidInstalls\<close> and nothing else, the
  path is in \<open>invalidInstalls\<close> of the result and no install of the result has it as its
  location. When the folder has no manifest, its callback contributes nothing: the result is
  that of the other folders alone.
\<close>

theorem getInstalls_missing_executable:
  "reachesRoots w entries \<and> r \<in> set (libraryRoots w entries) \<longrightarrow>
     (existing w (r @ APP_MANIFEST) \<and> manifests w (r @ APP_MANIFEST) = Parsed (Some m) \<and>
      AppState m = Some st \<and>
      \<not> existing w (r @ [''steamapps'', ''common'', installdir st] @ GAME_EXE) \<longrightarrow>
        probeRoot w r = MissingExecutable (r @ [''steamapps'', ''common'', installdir st]) \<and>
        r @ [''steamapps'', ''common'', installdir st] \<in> set (invalidInstalls (fst (getInstalls w))) \<and>
        (\<forall>i \<in> set (installs (fst (getInstalls w))).
           installLocation i \<noteq> r @ [''steamapps'', ''common'', installdir st])) \<and>
     (\<not> existing w (r @ APP_MANIFEST) \<longrightarrow>
        probeRoot w r = NoManifest \<and>
        (\<forall>xs ys. libraryRoots w entries = xs @ r # ys \<longrightarrow>
           getInstalls w = processRoots w (xs @ ys)))"
proof (intro impI conjI)
  assume reach: "reachesRoots w entries \<and> r \<in> set (libraryRoots w entries)"
  then have g: "getInstalls w = processRoots w (libraryRoots w entries)"
    by (simp add: getInstalls_reachesRoots)
  {
    assume a: "existing w (r @ APP_MANIFEST) \<and> manifests w (r @ APP_MANIFEST) = Parsed (Some m) \<and>
      AppState m = Some st \<and> \<not> existing w (r @ [''steamapps'', ''common'', installdir st] @ GAME_EXE)"
    let ?p = "r @ [''steamapps'', ''common'', installdir st]"
    from a show pr: "probeRoot w r = MissingExecutable ?p"
      by (simp add: probeRoot_def Let_def)
    have "invalidInstalls (fst (getInstalls w))
        = concat (map invalidOf (map (probeRoot w) (libraryRoots w entries)))"
      using g by (simp add: processRoots_def invalidInstalls_settleRoots)
    moreover from pr have "?p \<in> set (invalidOf (probeRoot w r))" by simp
    with reach have "?p \<in> set (concat (map invalidOf (map (probeRoot w) (libraryRoots w entries))))"
      by auto
    ultimately show "?p \<in> set (invalidInstalls (fst (getInstalls w)))" by simp
    show "\<forall>i \<in> set (installs (fst (getInstalls w))). installLocation i \<noteq> ?p"
    proof
      fix i
      assume "i \<in> set (installs (fst (getInstalls w)))"
      with installs_processRoots_existing [of w "libraryRoots w entries"] g
      have "existing w (installLocation i @ GAME_EXE)" by (simp add: list_all_iff)
      with a show "installLocation i \<noteq> ?p" by auto
    qed
  }
  {
    assume b: "\<not> existing w (r @ APP_MANIFEST)"
    then show n: "probeRoot w r = NoManifest" by (simp add: probeRoot_def)
    show "\<forall>xs ys. libraryRoots w entries = xs @ r # ys \<longrightarrow> getInstalls w = processRoots w (xs @ ys)"
      using g n by (simp add: processRoots_NoManifest)
  }
qed

theorem getInstalls_missing_executable_witness:
  "exampleLibrary @ [''steamapps'', ''common'', ''Satisfactory'']
     \<in> set (invalidInstalls (fst (getInstalls
          (discoveryWorld (Parsed (Some \<lparr>AppState = Some exampleState\<rparr>)) False)))) \<and>
   probeRoot (discoveryWorld (Parsed (Some \<lparr>AppState = Some exampleState\<rparr>)) False) emptyLibrary
     = NoManifest \<and>
   getInstalls (discoveryWorld (Parsed (Some \<lparr>AppState = Some exampleState\<rparr>)) False)
     = processRoots (discoveryWorld (Parsed (Some \<lparr>AppState = Some exampleState\<rparr>)) False)
         [exampleLibrary,
          STEAM_DATA_LOCATION (discoveryWorld (Parsed (Some \<lparr>AppState = Some exampleState\<rparr>)) False)]"
proof -
  let ?entries = "[(''1'', exampleLibrary), (''2'', emptyLibrary), (''ContentStatsID'', [''0''])]"
  let ?w = "discoveryWorld (Parsed (Some \<lparr>AppState = Some exampleState\<rparr>)) False"
  have ex: "existing ?w (exampleLibrary @ APP_MANIFEST)"
    "manifests ?w (exampleLibrary @ APP_MANIFEST) = Parsed (Some \<lparr>AppState = Some exampleState\<rparr>)"
    "\<not> existing ?w (exampleLibrary @ [''steamapps'', ''common'', ''Satisfactory''] @ GAME_EXE)"
    "\<not> existing ?w (emptyLibrary @ APP_MANIFEST)"
    by (simp_all add: discoveryWorld_def exampleLibrary_def emptyLibrary_def exampleHome_def
        APP_MANIFEST_def GAME_EXE_def)
  have "exampleLibrary @ [''steamapps'', ''common'', ''Satisfactory'']
      \<in> set (invalidInstalls (fst (getInstalls ?w)))"
    using getInstalls_missing_executable
      [of ?w ?entries exampleLibrary "\<lparr>AppState = Some exampleState\<rparr>" exampleState]
      exampleRoots [of "Parsed (Some \<lparr>AppState = Some exampleState\<rparr>)" False] ex
    by (simp add: exampleState_def)
  moreover have n: "probeRoot ?w emptyLibrary = NoManifest \<and>
      (\<forall>xs ys. libraryRoots ?w ?entries = xs @ emptyLibrary # ys \<longrightarrow>
         getInstalls ?w = processRoots ?w (xs @ ys))"
    using getInstalls_missing_executable [of ?w ?entries emptyLibrary]
      exampleRoots [of "Parsed (Some \<lparr>AppState = Some exampleState\<rparr>)" False] ex(4)
    by simp
  moreover have "getInstalls ?w = processRoots ?w ([exampleLibrary] @ [STEAM_DATA_LOCATION ?w])"
    using n exampleRoots(2) [of "Parsed (Some \<lparr>AppState = Some exampleState\<rparr>)" False]
    by (elim conjE allE [of _ "[exampleLibrary]"] allE [of _ "[STEAM_DATA_LOCATION ?w]"]) simp
  ultimately show ?thesis by simp
qed



section \<open>The cache and the installer: results\<close>

lemma file_names [simp]:
  "SMLDLLFileName \<noteq> SMLPakFileName" "SMLPakFileName \<noteq> SMLDLLFileName"
  "SMLDLLFileName \<noteq> ''loaders''" "SMLPakFileName \<noteq> ''loaders''"
  by (simp_all add: SMLDLLFileName_def SMLPakFileName_def)

lemma getSMLVersionCache_hit:
  "semver w V = Some v \<Longrightarrow> v \<noteq> [] \<Longrightarrow> fs w (smlCacheDir w @ [v]) \<noteq> None \<Longrightarrow>
   getSMLVersionCache V w = (Inr (smlCacheDir w @ [v]), w)"
  by (auto simp: getSMLVersionCache_def truthy_def existsSync_def Let_def)

text \<open>The calls of lines 39 to 52 when the cache directory is missing and the release is found.\<close>

lemma getSMLVersionCache_miss:
  assumes "semver w V = Some v" "v \<noteq> []" "fs w (smlCacheDir w @ [v]) = None"
    "releases w V = Some url" "url \<noteq> []"
  shows "getSMLVersionCache V w
    = (case downloadFile (downloadLink url SMLDLLFileName) (smlCacheDir w @ [v] @ [SMLDLLFileName])
              (snd (downloadFile (downloadLink url SMLPakFileName) (smlCacheDir w @ [v] @ [SMLPakFileName])
                      (w\<lparr>requests := requests w @ [VersionInfo V]\<rparr>))) of
         (Inl e, w3) \<Rightarrow> (Inl e, w3)
       | (Inr u, w3) \<Rightarrow> (Inr (smlCacheDir w @ [v]), w3))"
  using assms by (simp add: getSMLVersionCache_def truthy_def existsSync_def Let_def)

lemma getSMLVersionCache_populated:
  assumes "semver w V = Some v" "v \<noteq> []" "fs w (smlCacheDir w @ [v]) = None"
    and r: "getSMLVersionCache V w = (Inr d, w')"
  shows "d = smlCacheDir w @ [v] \<and> fs w' d \<noteq> None \<and>
         (\<exists>content. fs w' (d @ [SMLDLLFileName]) = Some (File content))"
proof (cases "truthy (releases w V)")
  case False
  with assms show ?thesis
    by (simp add: getSMLVersionCache_def truthy_def existsSync_def Let_def)
next
  case True
  then obtain url where u: "releases w V = Some url" "url \<noteq> []"
    by (cases "releases w V") (auto simp: truthy_def)
  let ?w2 = "snd (downloadFile (downloadLink url SMLPakFileName) (smlCacheDir w @ [v] @ [SMLPakFileName])
                      (w\<lparr>requests := requests w @ [VersionInfo V]\<rparr>))"
  obtain r3 w3 where d: "downloadFile (downloadLink url SMLDLLFileName)
      ((smlCacheDir w @ [v]) @ [SMLDLLFileName]) ?w2 = (r3, w3)"
    by force
  from getSMLVersionCache_miss [OF assms(1-3) u] r d
  have "r3 = Inr ()" "d = smlCacheDir w @ [v]" "w' = w3"
    by (cases r3; simp)+
  with d downloadFile_written [of "downloadLink url SMLDLLFileName" "smlCacheDir w @ [v]"
      SMLDLLFileName ?w2 "()" w3]
  show ?thesis by simp
qed

text \<open>
  C1, as stated: whenever the cache directory of a version exists, the DLL is in it, also
  after a call that has failed. With the pak online and the DLL offline the call fails
  after the pak has been written: the directory exists without the DLL, the next call
  returns it as a cache hit, and \<open>installSML\<close> then fails in its copy of the DLL.
\<close>

theorem getSMLVersionCache_partial_directory:
  "fst (getSMLVersionCache ''2.2.0'' (smlWorld True False None)) = Inl DownloadError \<and>
   existsSync (snd (getSMLVersionCache ''2.2.0'' (smlWorld True False None))) (exampleCache @ [''2.2.0'']) \<and>
   fs (snd (getSMLVersionCache ''2.2.0'' (smlWorld True False None)))
      (exampleCache @ [''2.2.0'', SMLDLLFileName]) = None \<and>
   fst (getSMLVersionCache ''2.2.0'' (snd (getSMLVersionCache ''2.2.0'' (smlWorld True False None))))
     = Inr (exampleCache @ [''2.2.0'']) \<and>
   fst (installSML ''2.2.0'' exampleGame (snd (getSMLVersionCache ''2.2.0'' (smlWorld True False None))))
     = Inl IOError"
  by code_simp

text \<open>
  C1, amended. A call that finds the cache directory of the version missing and returns
  without an error leaves the directory in place with the DLL in it. A call that finds the
  directory returns it and changes nothing, whatever the directory holds.
\<close>

theorem getSMLVersionCache_directory:
  "semver w V = Some v \<and> v \<noteq> [] \<longrightarrow>
     (existsSync w (smlCacheDir w @ [v]) \<longrightarrow>
        getSMLVersionCache V w = (Inr (smlCacheDir w @ [v]), w)) \<and>
     (\<not> existsSync w (smlCacheDir w @ [v]) \<and> getSMLVersionCache V w = (Inr d, w') \<longrightarrow>
        d = smlCacheDir w @ [v] \<and> existsSync w' d \<and>
        (\<exists>content. fs w' (d @ [SMLDLLFileName]) = Some (File content)))"
  using getSMLVersionCache_hit [of w V v] getSMLVersionCache_populated [of w V v d w']
  by (auto simp: existsSync_def)

theorem getSMLVersionCache_directory_witness:
  "fst (getSMLVersionCache ''2.2.0'' (smlWorld False True None)) = Inr (exampleCache @ [''2.2.0'']) \<and>
   existsSync (snd (getSMLVersionCache ''2.2.0'' (smlWorld False True None))) (exampleCache @ [''2.2.0'']) \<and>
   (\<exists>content. fs (snd (getSMLVersionCache ''2.2.0'' (smlWorld False True None)))
      ((exampleCache @ [''2.2.0'']) @ [SMLDLLFileName]) = Some (File content))"
proof -
  let ?w = "smlWorld False True None"
  have f: "fst (getSMLVersionCache ''2.2.0'' ?w) = Inr (exampleCache @ [''2.2.0''])"
    by code_simp
  then have r: "getSMLVersionCache ''2.2.0'' ?w
      = (Inr (exampleCache @ [''2.2.0'']), snd (getSMLVersionCache ''2.2.0'' ?w))"
    by (metis prod.collapse)
  have h: "semver ?w ''2.2.0'' = Some ''2.2.0''" "\<not> existsSync ?w (smlCacheDir ?w @ [''2.2.0''])"
    by (simp_all add: smlWorld_def existsSync_def exampleCache_def exampleGame_def
        SMLDLLRelativePath_def)
  from getSMLVersionCache_directory [of ?w "''2.2.0''" "''2.2.0''" "exampleCache @ [''2.2.0'']"
      "snd (getSMLVersionCache ''2.2.0'' ?w)"] h r f
  show ?thesis by simp
qed


lemma downloadLink_example:
  "downloadLink ''https://github.com/satisfactorymodding/SatisfactoryModLoader/releases/tag/v2.2.0'' SMLPakFileName
     = ''https://github.com/satisfactorymodding/SatisfactoryModLoader/releases/download/v2.2.0/SML.pak''"
  "downloadLink ''https://github.com/satisfactorymodding/SatisfactoryModLoader/releases/tag/v2.2.0'' SMLDLLFileName
     = ''https://github.com/satisfactorymodding/SatisfactoryModLoader/releases/download/v2.2.0/UE4-SML-Win64-Shipping.dll''"
  by code_simp+

text \<open>The cache after a population in which only the download of the DLL succeeds.\<close>

lemma getSMLVersionCache_dll_only:
  assumes "semver w V = Some v" "v \<noteq> []" "releases w V = Some url" "url \<noteq> []"
    "fs w (smlCacheDir w @ [v]) = None" "fs w (smlCacheDir w @ [v] @ [SMLDLLFileName]) = None"
    "network w (downloadLink url SMLPakFileName) = None"
    "network w (downloadLink url SMLDLLFileName) = Some content"
  shows "getSMLVersionCache V w
    = (Inr (smlCacheDir w @ [v]),
       w\<lparr>requests := requests w @ [VersionInfo V, Download (downloadLink url SMLPakFileName),
                                   Download (downloadLink url SMLDLLFileName)],
         fs := (fs w)(smlCacheDir w @ [v] \<mapsto> Dir,
                      smlCacheDir w @ [v] @ [SMLDLLFileName] \<mapsto> File content)\<rparr>)"
proof -
  let ?w1 = "w\<lparr>requests := requests w @ [VersionInfo V]\<rparr>"
  let ?w2 = "?w1\<lparr>requests := requests ?w1 @ [Download (downloadLink url SMLPakFileName)]\<rparr>"
  have p: "downloadFile (downloadLink url SMLPakFileName) (smlCacheDir w @ [v] @ [SMLPakFileName]) ?w1
      = (Inl DownloadError, ?w2)"
    using assms(7) by (simp add: downloadFile_offline)
  have d: "downloadFile (downloadLink url SMLDLLFileName) ((smlCacheDir w @ [v]) @ [SMLDLLFileName]) ?w2
      = (Inr (), ?w2\<lparr>requests := requests ?w2 @ [Download (downloadLink url SMLDLLFileName)],
                     fs := (fs (ensureExists (smlCacheDir w @ [v]) ?w2))
                             ((smlCacheDir w @ [v]) @ [SMLDLLFileName] \<mapsto> File content)\<rparr>)"
    using assms(6,8) by (intro downloadFile_online) simp_all
  from getSMLVersionCache_miss [OF assms(1,2,5,3,4)] p d assms(5)
  show ?thesis by (simp add: ensureExists_def)
qed


text \<open>
  \<open>installSML\<close> on a cache directory that holds the DLL and no pak, for a game directory
  without a loader.
\<close>

lemma installSML_dll_only:
  assumes "semver w V = Some v" "v \<noteq> []" "fs w (smlCacheDir w @ [v]) \<noteq> None"
    "fs w ((smlCacheDir w @ [v]) @ [SMLDLLFileName]) = Some (File content)"
    "fs w ((smlCacheDir w @ [v]) @ [SMLPakFileName]) = None"
    "\<not> truthy (getSMLVersion w G)" "fs w (G @ SMLDLLRelativePath) \<noteq> Some Dir"
  shows "installSML V G w
    = (Inr (),
       (ensureExists (G @ [''loaders'']) w)
         \<lparr>fs := (fs (ensureExists (G @ [''loaders'']) w))(G @ SMLDLLRelativePath \<mapsto> File content)\<rparr>)"
proof -
  let ?dir = "smlCacheDir w @ [v]"
  let ?w2 = "ensureExists (G @ [''loaders'']) w"
  let ?w4 = "?w2\<lparr>fs := (fs ?w2)(G @ SMLDLLRelativePath \<mapsto> File content)\<rparr>"
  have hit: "getSMLVersionCache V w = (Inr ?dir, w)"
    using assms(1-3) by (rule getSMLVersionCache_hit)
  have again: "ensureExists (G @ [''loaders'']) ?w2 = ?w2"
    by (simp add: ensureExists_def)
  have src: "fs ?w2 (?dir @ [SMLDLLFileName]) = Some (File content)"
    using assms(4) by (auto simp: ensureExists_fs)
  have dst: "fs ?w2 (G @ SMLDLLRelativePath) \<noteq> Some Dir"
    using assms(7) by (simp add: ensureExists_fs SMLDLLRelativePath_def)
  have copy: "copyFileSync (?dir @ [SMLDLLFileName]) (G @ SMLDLLRelativePath) ?w2 = (Inr (), ?w4)"
    using src dst by (simp add: copyFileSync_def)
  have pak: "\<not> existsSync ?w4 (?dir @ [SMLPakFileName])"
    using assms(5)
    by (simp add: existsSync_def ensureExists_fs SMLDLLRelativePath_def)
  from assms(6) hit again copy pak show ?thesis
    by (simp add: installSML_def Let_def)
qed

lemma installSML_dll_only_results:
  assumes "semver w V = Some v" "v \<noteq> []" "fs w (smlCacheDir w @ [v]) \<noteq> None"
    "fs w ((smlCacheDir w @ [v]) @ [SMLDLLFileName]) = Some (File content)"
    "fs w ((smlCacheDir w @ [v]) @ [SMLPakFileName]) = None"
    "\<not> truthy (getSMLVersion w G)" "fs w (G @ SMLDLLRelativePath) \<noteq> Some Dir"
  shows "fst (installSML V G w) = Inr ()"
    and "fs (snd (installSML V G w)) (G @ SMLDLLRelativePath) = Some (File content)"
    and "fs (snd (installSML V G w)) (G @ SMLPakRelativePath) = fs w (G @ SMLPakRelativePath)"
    and "requests (snd (installSML V G w)) = requests w"
  using installSML_dll_only [OF assms]
  by (simp_all add: ensureExists_fs SMLPakRelativePath_def SMLDLLRelativePath_def)

text \<open>
  C5. With the cache directory of the version missing and the release found: when the
  download of the pak fails and that of the DLL succeeds, \<open>getSMLVersionCache\<close> returns the
  cache directory, which then holds the DLL and no pak; \<open>installSML\<close> on the resulting
  world, for a game directory without a loader, succeeds without a network call, puts the
  DLL in place and leaves the path of the pak in the game directory as it was. When the
  download of the DLL fails, \<open>getSMLVersionCache\<close> fails with the error of the download,
  whether or not the pak has been downloaded.
\<close>

theorem getSMLVersionCache_pak_optional:
  "semver w V = Some v \<and> v \<noteq> [] \<and> releases w V = Some url \<and> url \<noteq> [] \<and>
   fs w (smlCacheDir w @ [v]) = None \<and> fs w (smlCacheDir w @ [v] @ [SMLDLLFileName]) = None \<and>
   fs w (smlCacheDir w @ [v] @ [SMLPakFileName]) = None \<longrightarrow>
     (network w (downloadLink url SMLPakFileName) = None \<and>
      network w (downloadLink url SMLDLLFileName) = Some content \<longrightarrow>
        fst (getSMLVersionCache V w) = Inr (smlCacheDir w @ [v]) \<and>
        fs (snd (getSMLVersionCache V w)) (smlCacheDir w @ [v] @ [SMLDLLFileName]) = Some (File content) \<and>
        fs (snd (getSMLVersionCache V w)) (smlCacheDir w @ [v] @ [SMLPakFileName]) = None \<and>
        (\<not> truthy (getSMLVersion (snd (getSMLVersionCache V w)) G) \<and>
         fs (snd (getSMLVersionCache V w)) (G @ SMLDLLRelativePath) \<noteq> Some Dir \<longrightarrow>
           fst (installSML V G (snd (getSMLVersionCache V w))) = Inr () \<and>
           fs (snd (installSML V G (snd (getSMLVersionCache V w)))) (G @ SMLDLLRelativePath)
             = Some (File content) \<and>
           fs (snd (installSML V G (snd (getSMLVersionCache V w)))) (G @ SMLPakRelativePath)
             = fs (snd (getSMLVersionCache V w)) (G @ SMLPakRelativePath) \<and>
           requests (snd (installSML V G (snd (getSMLVersionCache V w))))
             = requests (snd (getSMLVersionCache V w)))) \<and>
     (network w (downloadLink url SMLDLLFileName) = None \<longrightarrow>
        fst (getSMLVersionCache V w) = Inl DownloadError)"
proof (intro impI conjI)
  assume h: "semver w V = Some v \<and> v \<noteq> [] \<and> releases w V = Some url \<and> url \<noteq> [] \<and>
   fs w (smlCacheDir w @ [v]) = None \<and> fs w (smlCacheDir w @ [v] @ [SMLDLLFileName]) = None \<and>
   fs w (smlCacheDir w @ [v] @ [SMLPakFileName]) = None"
  {
    assume n: "network w (downloadLink url SMLPakFileName) = None \<and>
      network w (downloadLink url SMLDLLFileName) = Some content"
    let ?dir = "smlCacheDir w @ [v]"
    let ?w1 = "w\<lparr>requests := requests w @ [VersionInfo V, Download (downloadLink url SMLPakFileName),
                                   Download (downloadLink url SMLDLLFileName)],
         fs := (fs w)(?dir \<mapsto> Dir, ?dir @ [SMLDLLFileName] \<mapsto> File content)\<rparr>"
    have r: "getSMLVersionCache V w = (Inr ?dir, ?w1)"
      using getSMLVersionCache_dll_only [of w V v url content] h n by simp
    then show "fst (getSMLVersionCache V w) = Inr ?dir" by simp
    from r show "fs (snd (getSMLVersionCache V w)) (smlCacheDir w @ [v] @ [SMLDLLFileName])
        = Some (File content)"
      by simp
    from r h show p: "fs (snd (getSMLVersionCache V w)) (smlCacheDir w @ [v] @ [SMLPakFileName]) = None"
      by simp
    assume g: "\<not> truthy (getSMLVersion (snd (getSMLVersionCache V w)) G) \<and>
         fs (snd (getSMLVersionCache V w)) (G @ SMLDLLRelativePath) \<noteq> Some Dir"
    let ?s = "snd (getSMLVersionCache V w)"
    have s: "semver ?s V = Some v" "v \<noteq> []" "fs ?s (smlCacheDir ?s @ [v]) \<noteq> None"
      "fs ?s ((smlCacheDir ?s @ [v]) @ [SMLDLLFileName]) = Some (File content)"
      "fs ?s ((smlCacheDir ?s @ [v]) @ [SMLPakFileName]) = None"
      using r h by simp_all
    from g have g': "\<not> truthy (getSMLVersion ?s G)" "fs ?s (G @ SMLDLLRelativePath) \<noteq> Some Dir"
      by blast+
    note res = installSML_dll_only_results [OF s g']
    from res(1) show "fst (installSML V G ?s) = Inr ()" .
    from res(2) show "fs (snd (installSML V G ?s)) (G @ SMLDLLRelativePath) = Some (File content)" .
    from res(3) show "fs (snd (installSML V G ?s)) (G @ SMLPakRelativePath)
        = fs ?s (G @ SMLPakRelativePath)" .
    from res(4) show "requests (snd (installSML V G ?s)) = requests ?s" .
  }
  {
    assume off: "network w (downloadLink url SMLDLLFileName) = None"
    let ?w2 = "snd (downloadFile (downloadLink url SMLPakFileName) (smlCacheDir w @ [v] @ [SMLPakFileName])
                      (w\<lparr>requests := requests w @ [VersionInfo V]\<rparr>))"
    have "network ?w2 (downloadLink url SMLDLLFileName) = None"
      using off by simp
    then have "downloadFile (downloadLink url SMLDLLFileName) (smlCacheDir w @ [v] @ [SMLDLLFileName]) ?w2
      = (Inl DownloadError, ?w2\<lparr>requests := requests ?w2 @ [Download (downloadLink url SMLDLLFileName)]\<rparr>)"
      by (rule downloadFile_offline)
    with h show "fst (getSMLVersionCache V w) = Inl DownloadError"
      by (simp add: getSMLVersionCache_miss [of w V v url])
  }
qed

theorem getSMLVersionCache_pak_optional_witness:
  "fst (getSMLVersionCache ''2.2.0'' (smlWorld False True None)) = Inr (exampleCache @ [''2.2.0'']) \<and>
   fst (installSML ''2.2.0'' exampleGame (snd (getSMLVersionCache ''2.2.0'' (smlWorld False True None))))
     = Inr () \<and>
   fs (snd (installSML ''2.2.0'' exampleGame (snd (getSMLVersionCache ''2.2.0'' (smlWorld False True None)))))
      (exampleGame @ SMLDLLRelativePath) = Some (File ''dll-bytes'') \<and>
   fs (snd (installSML ''2.2.0'' exampleGame (snd (getSMLVersionCache ''2.2.0'' (smlWorld False True None)))))
      (exampleGame @ SMLPakRelativePath) = None \<and>
   fst (getSMLVersionCache ''2.2.0'' (smlWorld True False None)) = Inl DownloadError"
proof -
  let ?url = "''https://github.com/satisfactorymodding/SatisfactoryModLoader/releases/tag/v2.2.0''"
  let ?w = "smlWorld False True None"
  let ?w1 = "snd (getSMLVersionCache ''2.2.0'' ?w)"
  have h: "semver ?w ''2.2.0'' = Some ''2.2.0''" "releases ?w ''2.2.0'' = Some ?url"
    "fs ?w (smlCacheDir ?w @ [''2.2.0'']) = None"
    "fs ?w (smlCacheDir ?w @ [''2.2.0''] @ [SMLDLLFileName]) = None"
    "fs ?w (smlCacheDir ?w @ [''2.2.0''] @ [SMLPakFileName]) = None"
    "network ?w (downloadLink ?url SMLPakFileName) = None"
    "network ?w (downloadLink ?url SMLDLLFileName) = Some ''dll-bytes''"
    "smlCacheDir ?w = exampleCache"
    unfolding downloadLink_example
    by (simp_all add: smlWorld_def exampleCache_def exampleGame_def SMLDLLRelativePath_def)
  have g: "\<not> truthy (getSMLVersion ?w1 exampleGame)"
    "fs ?w1 (exampleGame @ SMLDLLRelativePath) \<noteq> Some Dir"
    "fs ?w1 (exampleGame @ SMLPakRelativePath) = None"
    by code_simp+
  have "fst (getSMLVersionCache ''2.2.0'' ?w) = Inr (exampleCache @ [''2.2.0'']) \<and>
      fst (installSML ''2.2.0'' exampleGame ?w1) = Inr () \<and>
      fs (snd (installSML ''2.2.0'' exampleGame ?w1)) (exampleGame @ SMLDLLRelativePath)
        = Some (File ''dll-bytes'') \<and>
      fs (snd (installSML ''2.2.0'' exampleGame ?w1)) (exampleGame @ SMLPakRelativePath) = None"
    using getSMLVersionCache_pak_optional [of ?w "''2.2.0''" "''2.2.0''" ?url "''dll-bytes''" exampleGame]
      h g
    by simp
  moreover have "fst (getSMLVersionCache ''2.2.0'' (smlWorld True False None)) = Inl DownloadError"
  proof -
    let ?v = "smlWorld True False None"
    have "semver ?v ''2.2.0'' = Some ''2.2.0''" "releases ?v ''2.2.0'' = Some ?url"
      "fs ?v (smlCacheDir ?v @ [''2.2.0'']) = None"
      "fs ?v (smlCacheDir ?v @ [''2.2.0''] @ [SMLDLLFileName]) = None"
      "fs ?v (smlCacheDir ?v @ [''2.2.0''] @ [SMLPakFileName]) = None"
      "network ?v (downloadLink ?url SMLDLLFileName) = None"
      unfolding downloadLink_example
      by (simp_all add: smlWorld_def exampleCache_def exampleGame_def SMLDLLRelativePath_def)
    with getSMLVersionCache_pak_optional [of ?v "''2.2.0''" "''2.2.0''" ?url]
    show ?thesis by simp
  qed
  ultimately show ?thesis by simp
qed


text \<open>
  C2, as stated: with a version string that fails the coercion, \<open>installSML\<close> fails with
  \<open>ModNotFoundError\<close> for every game directory. In a game directory that holds a loader
  already, \<open>installSML\<close> returns without an error: line 58 is tested before the version is
  looked at.
\<close>

theorem installSML_invalid_version_installed:
  "semver (smlWorld False True (Some (File ''dll-bytes''))) ''banana'' = None \<and>
   getSMLVersion (smlWorld False True (Some (File ''dll-bytes''))) exampleGame = Some ''2.2.0'' \<and>
   installSML ''banana'' exampleGame (smlWorld False True (Some (File ''dll-bytes'')))
     = (Inr (), smlWorld False True (Some (File ''dll-bytes'')))"
  by (simp add: installSML_def getSMLVersion_def truthy_def smlWorld_def)

text \<open>
  C2, amended. For a version string that fails the coercion, \<open>getSMLVersionCache\<close> fails
  with \<open>ModNotFoundError\<close> carrying \<open>SML\<close> and the string as given; \<open>installSML\<close> fails
  with the same error when the game directory holds no loader, and returns without an error
  when it holds one. In every case the file system and the trace of network calls are what
  they were.
\<close>

theorem invalid_version_no_effect:
  "semver w V = None \<longrightarrow>
     getSMLVersionCache V w = (Inl (ModNotFoundError (''SML@'' @ V @ '' not found.'') ''SML'' V), w) \<and>
     (\<not> truthy (getSMLVersion w G) \<longrightarrow>
        installSML V G w = (Inl (ModNotFoundError (''SML@'' @ V @ '' not found.'') ''SML'' V), w)) \<and>
     (truthy (getSMLVersion w G) \<longrightarrow> installSML V G w = (Inr (), w))"
  by (simp add: getSMLVersionCache_def installSML_def truthy_def notFound_def)

theorem invalid_version_no_effect_witness:
  "getSMLVersionCache ''banana'' (smlWorld True True None)
     = (Inl (ModNotFoundError ''SML@banana not found.'' ''SML'' ''banana''), smlWorld True True None) \<and>
   installSML ''banana'' exampleGame (smlWorld True True None)
     = (Inl (ModNotFoundError ''SML@banana not found.'' ''SML'' ''banana''), smlWorld True True None)"
proof -
  have s: "semver (smlWorld True True None) ''banana'' = None"
    by (simp add: smlWorld_def)
  have g: "\<not> truthy (getSMLVersion (smlWorld True True None) exampleGame)"
    by (simp add: getSMLVersion_def smlWorld_def truthy_def)
  from invalid_version_no_effect [of "smlWorld True True None" "''banana''" exampleGame] s g
  show ?thesis by simp
qed

text \<open>
  C7. Whatever the game directory holds and whatever the version, after \<open>installSML\<close>
  followed by \<open>uninstallSML\<close> the native reader finds no version in the game directory,
  whether or not a pak has been copied. The native reader is taken never to give the
  empty string for a version.
\<close>

theorem install_uninstall_absent:
  "(\<forall>content. embeddedVersion w content \<noteq> Some []) \<longrightarrow>
     getSMLVersion (snd (uninstallSML G (snd (installSML V G w)))) G = None"
proof
  assume "\<forall>content. embeddedVersion w content \<noteq> Some []"
  then have "\<forall>content. embeddedVersion (snd (installSML V G w)) content \<noteq> Some []"
    by (simp add: installSML_embeddedVersion)
  then show "getSMLVersion (snd (uninstallSML G (snd (installSML V G w)))) G = None"
    by (rule uninstallSML_absent)
qed

theorem install_uninstall_absent_witness:
  "getSMLVersion (smlWorld True True None) exampleGame = None \<and>
   getSMLVersion (snd (installSML ''2.2.0'' exampleGame (smlWorld True True None))) exampleGame
     = Some ''2.2.0'' \<and>
   fs (snd (installSML ''2.2.0'' exampleGame (smlWorld True True None)))
      (exampleGame @ SMLPakRelativePath) = Some (File ''pak-bytes'') \<and>
   getSMLVersion (snd (uninstallSML exampleGame
      (snd (installSML ''2.2.0'' exampleGame (smlWorld True True None))))) exampleGame = None"
proof -
  have "\<forall>content. embeddedVersion (smlWorld True True None) content \<noteq> Some []"
    by (simp add: smlWorld_def)
  with install_uninstall_absent [of "smlWorld True True None" exampleGame "''2.2.0''"]
  have "getSMLVersion (snd (uninstallSML exampleGame
      (snd (installSML ''2.2.0'' exampleGame (smlWorld True True None))))) exampleGame = None"
    by blast
  moreover have "getSMLVersion (smlWorld True True None) exampleGame = None"
    by code_simp
  moreover have "getSMLVersion (snd (installSML ''2.2.0'' exampleGame (smlWorld True True None))) exampleGame
     = Some ''2.2.0''"
    by code_simp
  moreover have "fs (snd (installSML ''2.2.0'' exampleGame (smlWorld True True None)))
      (exampleGame @ SMLPakRelativePath) = Some (File ''pak-bytes'')"
    by code_simp
  ultimately show ?thesis by simp
qed


end
